theory Spec2Isabelle
  imports
    Complex_Main
    "HOL-Library.AList"
    "HOL-Library.Char_ord"
    "HOL-Library.List_Lexorder"
begin

section \<open>Data model of server.py\<close>

text \<open>
  The server keeps one graph snapshot \<open>current_data = {"nodes": [...], "edges": [...]}\<close>.
  Nodes and edges are Python dicts with a fixed set of keys; they become records. A key
  that a dict may lack (\<open>ip\<close>, \<open>color\<close>, the position keys \<open>x\<close>, \<open>y\<close>, \<open>z\<close>) is an
  \<open>option\<close> field. Python strings are \<open>string\<close>, Python floats are modelled by exact
  reals, a Python dict is an association list in insertion order
  (\<open>map_of\<close> reads it, \<open>AList.update\<close> assigns to a key: in place when the key exists, at
  the end otherwise, as a dict does).
\<close>

type_synonym position = "real \<times> real \<times> real"

record node =
  nid :: string
  label :: string
  nsize :: real
  ip :: "string option"
  ncolor :: "string option"
  pos :: "position option"

record edge =
  source :: string
  target :: string
  timestamp :: real
  user :: "string option"
  ecolor :: string

record snapshot =
  nodes :: "node list"
  edges :: "edge list"

text \<open>Every exception the handlers catch, and the one error that is returned by hand.\<close>

datatype error =
    DecodeError
  | AttributeError
  | ParseError
  | ZeroDivisionError
  | KeyError
  | ValueError
  | TypeError
  | OverflowError
  | MissingIPs
  | NoFile
  | NoGraphData
  | NodeIdRequired
  | InvalidData

section \<open>Library calls\<close>

text \<open>
  What the program takes from libraries is a parameter of the model, one field per call:
  \<^item> \<open>isoparse s\<close> is \<^verbatim>\<open>parser.isoparse(s).timestamp()\<close> (dateutil), \<open>None\<close> when it raises;
  \<^item> \<open>py_int s\<close> is \<^verbatim>\<open>int(s)\<close> on a string, \<open>None\<close> when it raises ValueError;
  \<^item> \<open>normalize vmin vmax v\<close> is \<^verbatim>\<open>Normalize(vmin=vmin, vmax=vmax)(v)\<close> and \<open>jet\<close> the
    colormap \<^verbatim>\<open>cm.get_cmap('jet')\<close> (matplotlib), returning red, green, blue and alpha;
  \<^item> \<open>strptime s\<close> is \<^verbatim>\<open>datetime.strptime(s, "%Y-%m-%dT%H:%M")\<close>, \<open>None\<close> when it raises.
    A naive datetime is the number of seconds between 1970-01-01T00:00:00 and it, on the
    same wall clock (the format has no seconds and no fraction);
  \<^item> \<open>mktime d\<close> is \<^verbatim>\<open>d.timestamp()\<close> of a naive datetime, which depends on the local time
    zone, \<open>None\<close> when it raises.
  The random generator is a parameter of each request: \<open>rng k\<close> is what the \<open>k\<close>-th call of
  \<^verbatim>\<open>random.random()\<close> returns, and \<^verbatim>\<open>random.uniform(a, b)\<close> is \<open>a + (b - a) * random()\<close>.
\<close>

record lib =
  isoparse :: "string \<Rightarrow> real option"
  py_int :: "string \<Rightarrow> int option"
  normalize :: "real \<Rightarrow> real \<Rightarrow> real \<Rightarrow> real"
  jet :: "real \<Rightarrow> real \<times> real \<times> real \<times> real"
  strptime :: "string \<Rightarrow> int option"
  mktime :: "int \<Rightarrow> real option"

definition uniform :: "(nat \<Rightarrow> real) \<Rightarrow> nat \<Rightarrow> real \<Rightarrow> real \<Rightarrow> real" where
  "uniform rng k a b = a + (b - a) * rng k"

subsection \<open>Built-ins of the language\<close>

text \<open>\<^verbatim>\<open>s.split(c)\<close>: the pieces of \<open>s\<close> between the occurrences of \<open>c\<close>, never an empty list.\<close>

fun split_on :: "char \<Rightarrow> string \<Rightarrow> string list" where
  "split_on c [] = [[]]"
| "split_on c (x # xs) =
     (let r = split_on c xs in if x = c then [] # r else (x # hd r) # tl r)"

text \<open>\<^verbatim>\<open>max(xs)\<close> raises ValueError on an empty sequence.\<close>

fun py_max :: "nat list \<Rightarrow> nat option" where
  "py_max [] = None"
| "py_max (x # xs) = Some (fold max xs x)"

text \<open>\<^verbatim>\<open>int(x)\<close> of a float truncates towards zero; an f-string prints an int in decimal.\<close>

definition trunc :: "real \<Rightarrow> int" where
  "trunc x = (if 0 \<le> x then \<lfloor>x\<rfloor> else \<lceil>x\<rceil>)"

fun show_nat :: "nat \<Rightarrow> string" where
  "show_nat n =
     (if n < 10 then [''0123456789'' ! n]
      else show_nat (n div 10) @ [''0123456789'' ! (n mod 10)])"

definition show_int :: "int \<Rightarrow> string" where
  "show_int i = (if i < 0 then CHR ''-'' # show_nat (nat (- i)) else show_nat (nat i))"

text \<open>
  \<^verbatim>\<open>tuple(sorted([a, b]))\<close>: the two strings in increasing order. Python compares strings
  code point by code point, a prefix first; the order on \<open>string\<close> is the same
  lexicographic order.
\<close>

definition sorted_pair :: "string \<Rightarrow> string \<Rightarrow> string \<times> string" where
  "sorted_pair a b = (if b < a then (b, a) else (a, b))"

section \<open>Layouts\<close>

subsection \<open>calculate\_grid\_layout\<close>

text \<open>
  \<^verbatim>\<open>grid_size = math.ceil(math.sqrt(len(node_list)))\<close>, then for every
  \<^verbatim>\<open>index, node in enumerate(node_list)\<close> the assignment
  \<^verbatim>\<open>node_positions[node["id"]] = {"x": col * distance, "y": row * distance, "z": 0}\<close>.
\<close>

definition grid_size :: "nat \<Rightarrow> nat" where
  "grid_size n = nat \<lceil>sqrt (real n)\<rceil>"

definition grid_cell :: "nat \<Rightarrow> nat \<Rightarrow> nat \<Rightarrow> position" where
  "grid_cell g distance index =
     (let row = index div g; col = index mod g
      in (real (col * distance), real (row * distance), 0))"

definition calculate_grid_layout :: "node list \<Rightarrow> nat \<Rightarrow> (string \<times> position) list" where
  "calculate_grid_layout node_list distance =
     (let g = grid_size (length node_list)
      in fold (\<lambda>(index, n) node_positions.
                 AList.update (nid n) (grid_cell g distance index) node_positions)
           (enumerate 0 node_list) [])"

text \<open>An executable form of \<open>grid_size\<close>: the least \<open>k\<close> with \<open>n \<le> k * k\<close>.\<close>

fun sqrt_up :: "nat \<Rightarrow> nat \<Rightarrow> nat" where
  "sqrt_up n 0 = 0"
| "sqrt_up n (Suc k) = (if k * k < n then Suc k else sqrt_up n k)"

subsection \<open>calculate\_circular\_layout\<close>

text \<open>
  \<^verbatim>\<open>angle_increment = 2 * math.pi / len(node_list)\<close> raises ZeroDivisionError on an empty
  list, before the loop.
\<close>

definition circle_point :: "real \<Rightarrow> real \<Rightarrow> nat \<Rightarrow> position" where
  "circle_point radius angle_increment index =
     (let angle = real index * angle_increment
      in (radius * cos angle, radius * sin angle, 0))"

definition calculate_circular_layout ::
  "node list \<Rightarrow> real \<Rightarrow> error + (string \<times> position) list" where
  "calculate_circular_layout node_list radius =
     (if length node_list = 0 then Inl ZeroDivisionError
      else let angle_increment = 2 * pi / real (length node_list)
           in Inr (fold (\<lambda>(index, n) node_positions.
                     AList.update (nid n) (circle_point radius angle_increment index)
                       node_positions)
                   (enumerate 0 node_list) []))"

subsection \<open>calculate\_random\_layout\<close>

text \<open>
  Three draws for every node, in the order x, y, z. The state of the loop is the number
  of draws made so far and the positions.
\<close>

definition random_point :: "(nat \<Rightarrow> real) \<Rightarrow> nat \<Rightarrow> real \<times> real \<Rightarrow> real \<times> real \<Rightarrow> real \<times> real \<Rightarrow> position" where
  "random_point rng k range_x range_y range_z =
     (uniform rng k (fst range_x) (snd range_x),
      uniform rng (k + 1) (fst range_y) (snd range_y),
      uniform rng (k + 2) (fst range_z) (snd range_z))"

definition random_step ::
  "(nat \<Rightarrow> real) \<Rightarrow> real \<times> real \<Rightarrow> real \<times> real \<Rightarrow> real \<times> real \<Rightarrow> node \<Rightarrow>
   nat \<times> (string \<times> position) list \<Rightarrow> nat \<times> (string \<times> position) list" where
  "random_step rng range_x range_y range_z n st =
     (case st of (k, node_positions) \<Rightarrow>
        (k + 3, AList.update (nid n) (random_point rng k range_x range_y range_z) node_positions))"

definition calculate_random_layout ::
  "(nat \<Rightarrow> real) \<Rightarrow> node list \<Rightarrow> real \<times> real \<Rightarrow> real \<times> real \<Rightarrow> real \<times> real \<Rightarrow>
   (string \<times> position) list" where
  "calculate_random_layout rng node_list range_x range_y range_z =
     snd (fold (random_step rng range_x range_y range_z) node_list (0, []))"

subsection \<open>calculate\_smart\_layout\<close>

text \<open>
  \<^verbatim>\<open>edge_count = {node["id"]: 0 for node in node_list}\<close>, then one increment for the
  source and one for the target of every edge; an endpoint that is no key raises KeyError.
\<close>

definition increment :: "string \<Rightarrow> (string \<times> nat) list \<Rightarrow> error + (string \<times> nat) list" where
  "increment k edge_count =
     (case map_of edge_count k of
        None \<Rightarrow> Inl KeyError
      | Some c \<Rightarrow> Inr (AList.update k (c + 1) edge_count))"

fun count_edges :: "edge list \<Rightarrow> (string \<times> nat) list \<Rightarrow> error + (string \<times> nat) list" where
  "count_edges [] edge_count = Inr edge_count"
| "count_edges (e # es) edge_count =
     (case increment (source e) edge_count of
        Inl err \<Rightarrow> Inl err
      | Inr c1 \<Rightarrow>
          (case increment (target e) c1 of
             Inl err \<Rightarrow> Inl err
           | Inr c2 \<Rightarrow> count_edges es c2))"

text \<open>
  The group of a node: \<^verbatim>\<open>ip = node.get('ip')\<close>; when \<open>ip\<close> is a non-empty string with a
  dot that splits into four pieces, the group is \<^verbatim>\<open>int(octets[2])\<close>, which may raise.
  \<open>Inr None\<close> is a node that joins no group.
\<close>

definition third_octet :: "lib \<Rightarrow> node \<Rightarrow> error + int option" where
  "third_octet L n =
     (case ip n of
        None \<Rightarrow> Inr None
      | Some a \<Rightarrow>
          if a \<noteq> [] \<and> CHR ''.'' \<in> set a then
            (let octets = split_on CHR ''.'' a
             in if length octets = 4 then
                  (case py_int L (octets ! 2) of
                     None \<Rightarrow> Inl ValueError
                   | Some t \<Rightarrow> Inr (Some t))
                else Inr None)
          else Inr None)"

definition append_to_group :: "int \<Rightarrow> node \<Rightarrow> (int \<times> node list) list \<Rightarrow> (int \<times> node list) list" where
  "append_to_group t n groups =
     (case map_of groups t of
        None \<Rightarrow> AList.update t [n] groups
      | Some ns \<Rightarrow> AList.update t (ns @ [n]) groups)"

fun group_nodes :: "lib \<Rightarrow> node list \<Rightarrow> (int \<times> node list) list \<Rightarrow> error + (int \<times> node list) list" where
  "group_nodes L [] groups = Inr groups"
| "group_nodes L (n # ns) groups =
     (case third_octet L n of
        Inl err \<Rightarrow> Inl err
      | Inr None \<Rightarrow> group_nodes L ns groups
      | Inr (Some t) \<Rightarrow> group_nodes L ns (append_to_group t n groups))"

text \<open>
  The inner loop over one group: two draws of jitter for every node, and
  \<^verbatim>\<open>edge_count[node["id"]]\<close>, a KeyError when the id is no key.
\<close>

fun place_group ::
  "(nat \<Rightarrow> real) \<Rightarrow> (string \<times> nat) list \<Rightarrow> real \<times> real \<Rightarrow> real \<Rightarrow> (nat \<times> node) list \<Rightarrow>
   nat \<times> (string \<times> position) list \<Rightarrow> error + nat \<times> (string \<times> position) list" where
  "place_group rng edge_count center inc [] st = Inr st"
| "place_group rng edge_count center inc ((sub_index, n) # rest) st =
     (case st of (k, node_positions) \<Rightarrow>
        (let subgroup_radius = 600;
             sub_angle = real sub_index * inc;
             x = fst center + subgroup_radius * cos sub_angle + uniform rng k (- 300) 300;
             y = snd center + subgroup_radius * sin sub_angle + uniform rng (k + 1) (- 300) 300
         in case map_of edge_count (nid n) of
              None \<Rightarrow> Inl KeyError
            | Some c \<Rightarrow>
                place_group rng edge_count center inc rest
                  (k + 2, AList.update (nid n) (x, y, 0 + real (c * 50)) node_positions)))"

text \<open>The outer loop over \<^verbatim>\<open>enumerate(groups.items())\<close>.\<close>

fun place_groups ::
  "(nat \<Rightarrow> real) \<Rightarrow> (string \<times> nat) list \<Rightarrow> real \<Rightarrow> (nat \<times> int \<times> node list) list \<Rightarrow>
   nat \<times> (string \<times> position) list \<Rightarrow> error + nat \<times> (string \<times> position) list" where
  "place_groups rng edge_count angle_increment [] st = Inr st"
| "place_groups rng edge_count angle_increment ((index, grp, ns) # rest) st =
     (let radius = 4000;
          angle = real index * angle_increment;
          group_center_x = radius * cos angle;
          group_center_y = radius * sin angle
      in if length ns = 0 then Inl ZeroDivisionError
         else
           (let subgroup_angle_increment = 2 * pi / real (length ns)
            in case place_group rng edge_count (group_center_x, group_center_y)
                      subgroup_angle_increment (enumerate 0 ns) st of
                 Inl err \<Rightarrow> Inl err
               | Inr st' \<Rightarrow> place_groups rng edge_count angle_increment rest st'))"

definition smart_layout_body ::
  "lib \<Rightarrow> (nat \<Rightarrow> real) \<Rightarrow> node list \<Rightarrow> edge list \<Rightarrow> error + (string \<times> position) list" where
  "smart_layout_body L rng node_list es =
     (case count_edges es (fold (\<lambda>n m. AList.update (nid n) 0 m) node_list []) of
        Inl err \<Rightarrow> Inl err
      | Inr edge_count \<Rightarrow>
          (case group_nodes L node_list [] of
             Inl err \<Rightarrow> Inl err
           | Inr groups \<Rightarrow>
               (let total_groups = length groups
                in if total_groups = 0 then Inl ZeroDivisionError
                   else
                     (case place_groups rng edge_count (2 * pi / real total_groups)
                             (enumerate 0 groups) (0, []) of
                        Inl err \<Rightarrow> Inl err
                      | Inr (k, node_positions) \<Rightarrow>
                          (let ungrouped_nodes =
                                 filter (\<lambda>n. map_of node_positions (nid n) = None) node_list
                           in Inr (snd (fold (random_step rng (- 5000, 5000) (- 5000, 5000)
                                               (- 5000, 5000))
                                          ungrouped_nodes (k, node_positions))))))))"

text \<open>The \<^verbatim>\<open>try ... except Exception\<close> around the body: any exception gives the empty dict.\<close>

definition calculate_smart_layout ::
  "lib \<Rightarrow> (nat \<Rightarrow> real) \<Rightarrow> node list \<Rightarrow> edge list \<Rightarrow> (string \<times> position) list" where
  "calculate_smart_layout L rng node_list es =
     (case smart_layout_body L rng node_list es of
        Inl err \<Rightarrow> []
      | Inr node_positions \<Rightarrow> node_positions)"

subsection \<open>Choosing a layout\<close>

text \<open>
  The \<^verbatim>\<open>if layout == "grid": ... elif ... else\<close> chain that process\_csv and
  update\_layout share, with the early return of the smart layout on an empty result.
\<close>

definition layout_positions ::
  "lib \<Rightarrow> (nat \<Rightarrow> real) \<Rightarrow> string \<Rightarrow> node list \<Rightarrow> edge list \<Rightarrow> error + (string \<times> position) list" where
  "layout_positions L rng layout node_list es =
     (if layout = ''grid'' then Inr (calculate_grid_layout node_list 300)
      else if layout = ''circular'' then calculate_circular_layout node_list 300
      else if layout = ''random'' then
        Inr (calculate_random_layout rng node_list (- 10000, 10000) (- 10000, 10000) (- 10000, 10000))
      else if layout = ''smart'' then
        (let node_positions = calculate_smart_layout L rng node_list es
         in if node_positions = [] then Inl MissingIPs else Inr node_positions)
      else
        Inr (calculate_random_layout rng node_list (- 10000, 10000) (- 10000, 10000) (- 10000, 10000)))"

text \<open>
  \<^verbatim>\<open>node.update(node_positions[node_id])\<close> for every node whose id has a position; the
  others are logged and left as they are.
\<close>

definition apply_positions :: "(string \<times> position) list \<Rightarrow> node list \<Rightarrow> node list" where
  "apply_positions node_positions ns =
     map (\<lambda>n. case map_of node_positions (nid n) of
                 None \<Rightarrow> n
               | Some p \<Rightarrow> n\<lparr>pos := Some p\<rparr>) ns"

section \<open>Building the graph: process\_csv\<close>

text \<open>
  \<^verbatim>\<open>file.read().decode('utf-8-sig')\<close> and \<^verbatim>\<open>csv.DictReader\<close> either raise or deliver
  the rows. A row is a dict from column names to cells; a cell of a short row is Python's
  \<open>None\<close>. \<^verbatim>\<open>row.get(k, '')\<close> is the cell, or the empty string when the column is absent.
\<close>

type_synonym row = "(string \<times> string option) list"

datatype csv_file = Unreadable | Csv "row list"

definition row_get :: "row \<Rightarrow> string \<Rightarrow> string option" where
  "row_get r k = (case map_of r k of None \<Rightarrow> Some [] | Some cell \<Rightarrow> cell)"

text \<open>Truth of \<^verbatim>\<open>x\<close> for a string or \<open>None\<close>: non-empty.\<close>

definition truthy :: "string option \<Rightarrow> bool" where
  "truthy cell = (case cell of None \<Rightarrow> False | Some v \<Rightarrow> v \<noteq> [])"

definition strip_domain :: "string \<Rightarrow> string" where
  "strip_domain hostname = hd (split_on CHR ''.'' hostname)"

subsection \<open>The resolver loop\<close>

definition resolve_row :: "row \<Rightarrow> (string \<times> string) list \<Rightarrow> (string \<times> string) list" where
  "resolve_row r ip_to_hostname =
     (let ip_address = row_get r ''EventData.IpAddress'';
          ip_resolved = row_get r ''IpResolved''
      in if truthy ip_address \<and> truthy ip_resolved
         then AList.update (the ip_address) (strip_domain (the ip_resolved)) ip_to_hostname
         else ip_to_hostname)"

subsection \<open>Styling\<close>

definition calculate_edge_color :: "lib \<Rightarrow> nat \<Rightarrow> nat \<Rightarrow> string" where
  "calculate_edge_color L num_edges max_edges =
     (case jet L (normalize L 1 (real max_edges) (real num_edges)) of
        (r, g, b, a) \<Rightarrow>
          ''rgb('' @ show_int (trunc (255 * r)) @ '', '' @ show_int (trunc (255 * g)) @ '', ''
            @ show_int (trunc (255 * b)) @ '')'')"

definition calculate_node_size :: "nat \<Rightarrow> nat \<Rightarrow> error + real" where
  "calculate_node_size num_edges max_edges =
     (if max_edges = 0 then Inl ZeroDivisionError
      else (let ratio = real num_edges / real max_edges;
                size = 10 + ratio * 20
            in Inr size))"

subsection \<open>The row loop\<close>

text \<open>
  The state of the second loop. \<open>edge_groups\<close> holds, for every sorted pair of ids, the
  edges of the group; Python appends the same dict object to \<open>edges\<close> and to the group, so
  a group is the list of the positions of its edges in \<open>edges\<close>.
\<close>

record build =
  b_nodes :: "(string \<times> node) list"
  b_edges :: "edge list"
  edge_groups :: "((string \<times> string) \<times> nat list) list"
  node_edge_count :: "(string \<times> nat) list"

definition empty_build :: build where
  "empty_build = \<lparr>b_nodes = [], b_edges = [], edge_groups = [], node_edge_count = []\<rparr>"

text \<open>Lines 149 to 157: the source id and label, and the late enrichment of a node.\<close>

definition resolve_source ::
  "(string \<times> string) list \<Rightarrow> string \<Rightarrow> (string \<times> node) list \<Rightarrow>
   string \<times> string \<times> (string \<times> node) list" where
  "resolve_source ip_to_hostname ip_address ns =
     (case map_of ip_to_hostname ip_address of
        Some source_id \<Rightarrow>
          (let source_label = source_id @ '' ('' @ ip_address @ '')''
           in (source_id, source_label,
               (case map_of ns source_id of
                  Some n \<Rightarrow>
                    if ip n = None
                    then AList.update source_id (n\<lparr>label := source_label, ip := Some ip_address\<rparr>) ns
                    else ns
                | None \<Rightarrow> ns)))
      | None \<Rightarrow> (ip_address, ip_address, ns))"

text \<open>Lines 159 to 162: the two nodes of the row, created when their ids are new.\<close>

definition add_source_node :: "string \<Rightarrow> string \<Rightarrow> string \<Rightarrow> (string \<times> node) list \<Rightarrow> (string \<times> node) list" where
  "add_source_node source_id source_label ip_address ns =
     (if map_of ns source_id = None
      then AList.update source_id
             \<lparr>nid = source_id, label = source_label, nsize = 10, ip = Some ip_address,
              ncolor = None, pos = None\<rparr> ns
      else ns)"

definition add_target_node ::
  "(string \<times> string) list \<Rightarrow> string \<Rightarrow> string \<Rightarrow> (string \<times> node) list \<Rightarrow> (string \<times> node) list" where
  "add_target_node ip_to_hostname computer ip_address ns =
     (if map_of ns computer = None
      then AList.update computer
             \<lparr>nid = computer,
              label = (if map_of ip_to_hostname ip_address \<noteq> None
                       then computer @ '' ('' @ ip_address @ '')'' else computer),
              nsize = 10, ip = None, ncolor = None, pos = None\<rparr> ns
      else ns)"

definition bump :: "string \<Rightarrow> (string \<times> nat) list \<Rightarrow> (string \<times> nat) list" where
  "bump k counts = AList.update k ((case map_of counts k of None \<Rightarrow> 0 | Some c \<Rightarrow> c) + 1) counts"

definition add_to_edge_group ::
  "string \<times> string \<Rightarrow> nat \<Rightarrow> ((string \<times> string) \<times> nat list) list \<Rightarrow>
   ((string \<times> string) \<times> nat list) list" where
  "add_to_edge_group edge_group_key i groups =
     (case map_of groups edge_group_key of
        None \<Rightarrow> AList.update edge_group_key [i] groups
      | Some g \<Rightarrow> AList.update edge_group_key (g @ [i]) groups)"

text \<open>
  One iteration. \<^verbatim>\<open>strip_domain\<close> is applied to the Computer cell before the test of
  line 144, so a \<open>None\<close> cell raises AttributeError for any row; a row with an empty event
  time, computer or ip address is skipped; \<^verbatim>\<open>parser.isoparse\<close> may raise.
\<close>

definition process_row :: "lib \<Rightarrow> (string \<times> string) list \<Rightarrow> row \<Rightarrow> build \<Rightarrow> error + build" where
  "process_row L ip_to_hostname r b =
     (let event_time = row_get r ''EventTime'' in
      case row_get r ''Computer'' of
        None \<Rightarrow> Inl AttributeError
      | Some c \<Rightarrow>
          (let computer = strip_domain c;
               ip_cell = row_get r ''EventData.IpAddress'';
               usr = row_get r ''EventData.TargetUserName''
           in if \<not> truthy event_time \<or> computer = [] \<or> \<not> truthy ip_cell then Inr b
              else
                (case isoparse L (the event_time) of
                   None \<Rightarrow> Inl ParseError
                 | Some time_created \<Rightarrow>
                     (let ip_address = the ip_cell in
                      case resolve_source ip_to_hostname ip_address (b_nodes b) of
                        (source_id, source_label, ns1) \<Rightarrow>
                          (let ns2 = add_source_node source_id source_label ip_address ns1;
                               ns3 = add_target_node ip_to_hostname computer ip_address ns2;
                               e = \<lparr>source = source_id, target = computer,
                                    timestamp = time_created, user = usr, ecolor = []\<rparr>
                           in Inr \<lparr>b_nodes = ns3,
                                   b_edges = b_edges b @ [e],
                                   edge_groups =
                                     add_to_edge_group (sorted_pair source_id computer)
                                       (length (b_edges b)) (edge_groups b),
                                   node_edge_count =
                                     bump computer (bump source_id (node_edge_count b))\<rparr>)))))"

fun process_rows :: "lib \<Rightarrow> (string \<times> string) list \<Rightarrow> row list \<Rightarrow> build \<Rightarrow> error + build" where
  "process_rows L ip_to_hostname [] b = Inr b"
| "process_rows L ip_to_hostname (r # rs) b =
     (case process_row L ip_to_hostname r b of
        Inl err \<Rightarrow> Inl err
      | Inr b' \<Rightarrow> process_rows L ip_to_hostname rs b')"

subsection \<open>After the loop\<close>

text \<open>
  Lines 182 to 189: the color and the size of every node.
  \<^verbatim>\<open>node_edge_count[node_id]\<close> raises KeyError for an id that is no key.
\<close>

definition py_max_default :: "nat list \<Rightarrow> nat \<Rightarrow> nat" where
  "py_max_default xs d = (case py_max xs of None \<Rightarrow> d | Some m \<Rightarrow> m)"

definition style_node ::
  "(string \<times> string) list \<Rightarrow> (string \<times> nat) list \<Rightarrow> nat \<Rightarrow> string \<times> node \<Rightarrow> error + string \<times> node" where
  "style_node ip_to_hostname counts max_node_edges kn =
     (case kn of (node_id, n) \<Rightarrow>
        (let c = (case ip n of
                    None \<Rightarrow> ''red''
                  | Some a \<Rightarrow> if map_of ip_to_hostname a \<noteq> None then ''blue'' else ''red'')
         in case map_of counts node_id of
              None \<Rightarrow> Inl KeyError
            | Some d \<Rightarrow>
                (case calculate_node_size d max_node_edges of
                   Inl err \<Rightarrow> Inl err
                 | Inr sz \<Rightarrow> Inr (node_id, n\<lparr>ncolor := Some c, nsize := sz\<rparr>))))"

fun style_nodes ::
  "(string \<times> string) list \<Rightarrow> (string \<times> nat) list \<Rightarrow> nat \<Rightarrow> (string \<times> node) list \<Rightarrow>
   error + (string \<times> node) list" where
  "style_nodes ip_to_hostname counts m [] = Inr []"
| "style_nodes ip_to_hostname counts m (kn # rest) =
     (case style_node ip_to_hostname counts m kn of
        Inl err \<Rightarrow> Inl err
      | Inr kn' \<Rightarrow>
          (case style_nodes ip_to_hostname counts m rest of
             Inl err \<Rightarrow> Inl err
           | Inr rest' \<Rightarrow> Inr (kn' # rest')))"

text \<open>
  Lines 191 to 198: one color for each group, written into every edge of the group
  through its position in \<open>edges\<close>.
\<close>

definition color_group :: "lib \<Rightarrow> nat \<Rightarrow> (string \<times> string) \<times> nat list \<Rightarrow> edge list \<Rightarrow> edge list" where
  "color_group L max_edges grp es =
     (let num_edges = length (snd grp);
          color = calculate_edge_color L num_edges max_edges
      in fold (\<lambda>i es'. es'[i := (es' ! i)\<lparr>ecolor := color\<rparr>]) (snd grp) es)"

definition color_edges :: "lib \<Rightarrow> ((string \<times> string) \<times> nat list) list \<Rightarrow> edge list \<Rightarrow> error + edge list" where
  "color_edges L groups es =
     (case py_max (map (\<lambda>g. length (snd g)) groups) of
        None \<Rightarrow> Inl ValueError
      | Some max_edges \<Rightarrow> Inr (fold (color_group L max_edges) groups es))"

subsection \<open>process\_csv\<close>

text \<open>
  Lines 215 to 219, for one item of the dict \<open>nodes\<close>:
  \<^verbatim>\<open>nodes[node_id].update(node_positions[node_id])\<close> when the id has a position.
\<close>

definition place :: "(string \<times> position) list \<Rightarrow> string \<times> node \<Rightarrow> node" where
  "place node_positions kn =
     (case map_of node_positions (fst kn) of
        None \<Rightarrow> snd kn
      | Some p \<Rightarrow> (snd kn)\<lparr>pos := Some p\<rparr>)"

text \<open>
  The body of the \<^verbatim>\<open>try\<close>: the value that \<^verbatim>\<open>current_data\<close> is assigned, or the exception
  (for the smart layout, the error that is returned by hand).
\<close>

definition build_snapshot :: "lib \<Rightarrow> (nat \<Rightarrow> real) \<Rightarrow> csv_file \<Rightarrow> string \<Rightarrow> error + snapshot" where
  "build_snapshot L rng file layout =
     (case file of
        Unreadable \<Rightarrow> Inl DecodeError
      | Csv reader \<Rightarrow>
          (let ip_to_hostname = fold resolve_row reader [] in
           case process_rows L ip_to_hostname reader empty_build of
             Inl err \<Rightarrow> Inl err
           | Inr b \<Rightarrow>
               (let max_node_edges = py_max_default (map snd (node_edge_count b)) 1 in
                case style_nodes ip_to_hostname (node_edge_count b) max_node_edges (b_nodes b) of
                  Inl err \<Rightarrow> Inl err
                | Inr styled \<Rightarrow>
                    (case color_edges L (edge_groups b) (b_edges b) of
                       Inl err \<Rightarrow> Inl err
                     | Inr es \<Rightarrow>
                         (let node_list = map snd styled in
                          case layout_positions L rng layout node_list es of
                            Inl err \<Rightarrow> Inl err
                          | Inr node_positions \<Rightarrow>
                              Inr \<lparr>nodes = map (place node_positions) styled,
                                   edges = es\<rparr>)))))"

text \<open>
  process\_csv returns the error dict or the snapshot, and assigns the global
  \<^verbatim>\<open>current_data\<close> only at the end of a run without exception.
\<close>

definition process_csv ::
  "lib \<Rightarrow> (nat \<Rightarrow> real) \<Rightarrow> csv_file \<Rightarrow> string \<Rightarrow> snapshot option \<Rightarrow>
   (error + snapshot) \<times> snapshot option" where
  "process_csv L rng file layout current_data =
     (case build_snapshot L rng file layout of
        Inl err \<Rightarrow> (Inl err, current_data)
      | Inr s \<Rightarrow> (Inr s, Some s))"

section \<open>Request handlers\<close>

text \<open>
  A response is the HTTP status and the JSON body: a graph, or \<^verbatim>\<open>{"error": ...}\<close>. A
  handler takes the global \<^verbatim>\<open>current_data\<close> (\<open>None\<close> before the first upload) and, when it
  assigns it, returns the new value with the response.
\<close>

datatype body = Graph snapshot | Failure error

type_synonym response = "nat \<times> body"

definition upload_file ::
  "lib \<Rightarrow> (nat \<Rightarrow> real) \<Rightarrow> csv_file option \<Rightarrow> string option \<Rightarrow> snapshot option \<Rightarrow>
   response \<times> snapshot option" where
  "upload_file L rng file layout current_data =
     (case file of
        None \<Rightarrow> ((400, Failure NoFile), current_data)
      | Some f \<Rightarrow>
          (case process_csv L rng f (case layout of None \<Rightarrow> ''grid'' | Some l \<Rightarrow> l) current_data of
             (Inl err, cur) \<Rightarrow> ((500, Failure err), cur)
           | (Inr data, cur) \<Rightarrow>
               if nodes data = [] \<or> edges data = [] then ((500, Failure InvalidData), cur)
               else ((200, Graph data), cur)))"

definition highlight_data :: "string option \<Rightarrow> snapshot option \<Rightarrow> response" where
  "highlight_data node_id current_data =
     (case current_data of
        None \<Rightarrow> (400, Failure NoGraphData)
      | Some cd \<Rightarrow>
          if \<not> truthy node_id then (400, Failure NodeIdRequired)
          else
            (let x = the node_id;
                 highlighted_edges = filter (\<lambda>e. source e = x \<or> target e = x) (edges cd);
                 highlighted_nodes_ids =
                   fold (\<lambda>e ids. insert (target e) (insert (source e) ids)) highlighted_edges {x};
                 highlighted_nodes = filter (\<lambda>n. nid n \<in> highlighted_nodes_ids) (nodes cd)
             in (200, Graph \<lparr>nodes = highlighted_nodes, edges = highlighted_edges\<rparr>)))"

text \<open>
  Python's datetime runs from 0001-01-01T00:00:00 to 9999-12-31T23:59:59.999999; adding a
  timedelta that leaves the range raises OverflowError.
\<close>

definition dt_min :: int where "dt_min = - 62135596800"
definition dt_max :: int where "dt_max = 253402300799"

definition timedelta_add :: "int \<Rightarrow> int \<Rightarrow> error + int" where
  "timedelta_add d seconds =
     (if dt_min \<le> d + seconds \<and> d + seconds \<le> dt_max then Inr (d + seconds) else Inl OverflowError)"

text \<open>
  Lines 300 to 304: the two bounds. A missing key is a KeyError, a string that strptime
  rejects a ValueError.
\<close>

definition filter_bounds :: "lib \<Rightarrow> string option \<Rightarrow> string option \<Rightarrow> error + real \<times> real" where
  "filter_bounds L start_date end_date =
     (case start_date of None \<Rightarrow> Inl KeyError | Some sd \<Rightarrow>
      case end_date of None \<Rightarrow> Inl KeyError | Some ed \<Rightarrow>
      case strptime L sd of None \<Rightarrow> Inl ValueError | Some s \<Rightarrow>
      case mktime L s of None \<Rightarrow> Inl OverflowError | Some start_timestamp \<Rightarrow>
      case strptime L ed of None \<Rightarrow> Inl ValueError | Some e \<Rightarrow>
      case timedelta_add e 86400 of Inl err \<Rightarrow> Inl err | Inr e1 \<Rightarrow>
      case timedelta_add e1 (- 1) of Inl err \<Rightarrow> Inl err | Inr e2 \<Rightarrow>
      case mktime L e2 of None \<Rightarrow> Inl OverflowError | Some end_timestamp \<Rightarrow>
        Inr (start_timestamp, end_timestamp))"

definition filter_data :: "lib \<Rightarrow> string option \<Rightarrow> string option \<Rightarrow> snapshot option \<Rightarrow> response" where
  "filter_data L start_date end_date current_data =
     (case current_data of
        None \<Rightarrow> (400, Failure NoGraphData)
      | Some cd \<Rightarrow>
          (case filter_bounds L start_date end_date of
             Inl err \<Rightarrow> (500, Failure err)
           | Inr (start_timestamp, end_timestamp) \<Rightarrow>
               (let filtered_edges =
                      filter (\<lambda>e. start_timestamp \<le> timestamp e \<and> timestamp e \<le> end_timestamp)
                        (edges cd);
                    nodes_ids = source ` set filtered_edges \<union> target ` set filtered_edges;
                    filtered_nodes = filter (\<lambda>n. nid n \<in> nodes_ids) (nodes cd)
                in (200, Graph \<lparr>nodes = filtered_nodes, edges = filtered_edges\<rparr>))))"

text \<open>
  update\_layout: the smart layout's empty result is returned as an error body without a
  status (so 200), any exception as a 500; neither assigns \<^verbatim>\<open>current_data\<close>.
\<close>

definition update_layout ::
  "lib \<Rightarrow> (nat \<Rightarrow> real) \<Rightarrow> string option \<Rightarrow> snapshot option \<Rightarrow> response \<times> snapshot option" where
  "update_layout L rng layout current_data =
     (case current_data of
        None \<Rightarrow> ((400, Failure NoGraphData), None)
      | Some cd \<Rightarrow>
          (let node_list = nodes cd in
           case layout_positions L rng (case layout of None \<Rightarrow> ''grid'' | Some l \<Rightarrow> l)
                  node_list (edges cd) of
             Inl err \<Rightarrow>
               if err = MissingIPs then ((200, Failure MissingIPs), Some cd)
               else ((500, Failure err), Some cd)
           | Inr node_positions \<Rightarrow>
               (let cd' = cd\<lparr>nodes := apply_positions node_positions node_list\<rparr>
                in ((200, Graph cd'), Some cd'))))"

text \<open>
  The values \<^verbatim>\<open>current_data\<close> can take: \<open>None\<close> at start, and what upload\_file and
  update\_layout leave (the other handlers only read it).
\<close>

inductive stored :: "lib \<Rightarrow> snapshot option \<Rightarrow> bool" for L :: lib where
  initial: "stored L None"
| upload: "stored L cur \<Longrightarrow> upload_file L rng file layout cur = (resp, cur') \<Longrightarrow> stored L cur'"
| relayout: "stored L cur \<Longrightarrow> update_layout L rng layout cur = (resp, cur') \<Longrightarrow> stored L cur'"

section \<open>A concrete library\<close>

text \<open>
  An instance of the library parameters to run the model on: timestamps of the form
  \<^verbatim>\<open>YYYY-MM-DDTHH:MM\<close> (for strptime) and \<^verbatim>\<open>YYYY-MM-DDTHH:MM:SSZ\<close> (for isoparse) in
  the proleptic Gregorian calendar, a server clock on UTC, \<^verbatim>\<open>int\<close> on strings of ASCII
  digits, Normalize as matplotlib defines it, and a two-colour ramp in place of jet.
\<close>

definition digit_val :: "char \<Rightarrow> nat option" where
  "digit_val c = (if CHR ''0'' \<le> c \<and> c \<le> CHR ''9'' then Some (of_char c - 48) else None)"

fun digits_val :: "string \<Rightarrow> nat \<Rightarrow> nat option" where
  "digits_val [] acc = Some acc"
| "digits_val (c # cs) acc =
     (case digit_val c of None \<Rightarrow> None | Some d \<Rightarrow> digits_val cs (10 * acc + d))"

definition number :: "string \<Rightarrow> nat option" where
  "number s = (if s = [] then None else digits_val s 0)"

definition leap_year :: "nat \<Rightarrow> bool" where
  "leap_year y = (y mod 4 = 0 \<and> (y mod 100 \<noteq> 0 \<or> y mod 400 = 0))"

definition days_in_month :: "nat \<Rightarrow> nat \<Rightarrow> nat" where
  "days_in_month y m =
     (if m = 2 then (if leap_year y then 29 else 28)
      else if m = 4 \<or> m = 6 \<or> m = 9 \<or> m = 11 then 30 else 31)"

text \<open>Days from 1970-01-01 to the given date, for years from 1 on.\<close>

definition days_from_civil :: "nat \<Rightarrow> nat \<Rightarrow> nat \<Rightarrow> int" where
  "days_from_civil y m d =
     (let y' = (if m \<le> 2 then y - 1 else y);
          era = y' div 400;
          yoe = y' mod 400;
          doy = (153 * (if 2 < m then m - 3 else m + 9) + 2) div 5 + d - 1;
          doe = yoe * 365 + yoe div 4 - yoe div 100 + doy
      in int (era * 146097 + doe) - 719468)"

definition minute_stamp :: "string \<Rightarrow> int option" where
  "minute_stamp s =
     (if length s = 16 \<and> s ! 4 = CHR ''-'' \<and> s ! 7 = CHR ''-'' \<and> s ! 10 = CHR ''T''
         \<and> s ! 13 = CHR '':'' then
        (case (number (take 4 s), number (take 2 (drop 5 s)), number (take 2 (drop 8 s)),
               number (take 2 (drop 11 s)), number (take 2 (drop 14 s))) of
           (Some y, Some m, Some d, Some h, Some mi) \<Rightarrow>
             if 1 \<le> y \<and> 1 \<le> m \<and> m \<le> 12 \<and> 1 \<le> d \<and> d \<le> days_in_month y m \<and> h \<le> 23 \<and> mi \<le> 59
             then Some (days_from_civil y m d * 86400 + int (h * 3600 + mi * 60))
             else None
         | _ \<Rightarrow> None)
      else None)"

definition utc_stamp :: "string \<Rightarrow> real option" where
  "utc_stamp s =
     (if length s = 20 \<and> s ! 16 = CHR '':'' \<and> s ! 19 = CHR ''Z'' then
        (case (minute_stamp (take 16 s), number (take 2 (drop 17 s))) of
           (Some t, Some sec) \<Rightarrow> if sec \<le> 59 then Some (real_of_int (t + int sec)) else None
         | _ \<Rightarrow> None)
      else None)"

definition lib0 :: lib where
  "lib0 =
     \<lparr>isoparse = utc_stamp,
      py_int = (\<lambda>s. map_option int (number s)),
      normalize = (\<lambda>vmin vmax v. if vmin = vmax then 0 else (v - vmin) / (vmax - vmin)),
      jet = (\<lambda>v. (v, 0, 1 - v, 1)),
      strptime = minute_stamp,
      mktime = (\<lambda>d. Some (real_of_int d))\<rparr>"

definition rng0 :: "nat \<Rightarrow> real" where
  "rng0 k = 1 / 2"

section \<open>Concrete inputs\<close>

text \<open>Small inputs on which the model is run.\<close>

definition bare_node :: "string \<Rightarrow> node" where
  "bare_node k = \<lparr>nid = k, label = k, nsize = 10, ip = None, ncolor = None, pos = None\<rparr>"

section \<open>Graph notions used by the properties\<close>

text \<open>
  The endpoints of a list of edges, the degree of an id (the number of edge ends at it, so
  an edge from a node to itself counts twice), and the group of an edge: the edges with
  the same unordered pair of ends.
\<close>

definition endpoints :: "edge list \<Rightarrow> string set" where
  "endpoints es = source ` set es \<union> target ` set es"

definition degree :: "edge list \<Rightarrow> string \<Rightarrow> nat" where
  "degree es v = length (filter (\<lambda>e. source e = v) es) + length (filter (\<lambda>e. target e = v) es)"

definition same_pair :: "edge \<Rightarrow> edge \<Rightarrow> bool" where
  "same_pair e f \<longleftrightarrow> {source e, target e} = {source f, target f}"

definition group_size :: "edge list \<Rightarrow> edge \<Rightarrow> nat" where
  "group_size es e = length (filter (same_pair e) es)"

definition pair_key :: "edge \<Rightarrow> string \<times> string" where
  "pair_key e = sorted_pair (source e) (target e)"

definition group_indices :: "edge list \<Rightarrow> string \<times> string \<Rightarrow> nat list" where
  "group_indices es key = filter (\<lambda>i. pair_key (es ! i) = key) [0..<length es]"

text \<open>What the row loop maintains.\<close>

definition build_inv :: "build \<Rightarrow> bool" where
  "build_inv b \<longleftrightarrow>
     distinct (map fst (b_nodes b)) \<and>
     (\<forall>k n. map_of (b_nodes b) k = Some n \<longrightarrow> nid n = k) \<and>
     fst ` set (b_nodes b) = endpoints (b_edges b) \<and>
     (\<forall>k. map_of (node_edge_count b) k =
            (if k \<in> endpoints (b_edges b) then Some (degree (b_edges b) k) else None)) \<and>
     distinct (map fst (node_edge_count b)) \<and>
     distinct (map fst (edge_groups b)) \<and>
     (\<forall>key. map_of (edge_groups b) key =
              (if group_indices (b_edges b) key = [] then None
               else Some (group_indices (b_edges b) key))) \<and>
     (\<forall>e \<in> set (b_edges b). ecolor e = [])"

definition ends :: "edge list \<Rightarrow> (string \<times> string) list" where
  "ends es = map (\<lambda>e. (source e, target e)) es"

text \<open>
  What every stored snapshot satisfies: node ids are distinct and are exactly the ends of
  the edges, there is an edge, every size follows from the degrees and every edge color
  from the sizes of the groups.
\<close>

definition max_degree :: "edge list \<Rightarrow> nat" where
  "max_degree es = Max (degree es ` endpoints es)"

definition max_group_size :: "edge list \<Rightarrow> nat" where
  "max_group_size es = Max (group_size es ` set es)"

definition snapshot_inv :: "lib \<Rightarrow> snapshot \<Rightarrow> bool" where
  "snapshot_inv L s \<longleftrightarrow>
     distinct (map nid (nodes s)) \<and>
     nid ` set (nodes s) = endpoints (edges s) \<and>
     edges s \<noteq> [] \<and>
     (\<forall>n \<in> set (nodes s).
        nsize n = 10 + (real (degree (edges s) (nid n)) / real (max_degree (edges s))) * 20) \<and>
     (\<forall>e \<in> set (edges s).
        ecolor e = calculate_edge_color L (group_size (edges s) e) (max_group_size (edges s)))"

text \<open>The two rows of the example in the specification.\<close>

definition row1 :: row where
  "row1 = [(''EventTime'', Some ''2023-01-01T00:00:00Z''), (''Computer'', Some ''host1.local''),
           (''EventData.IpAddress'', Some ''10.0.0.1''),
           (''EventData.TargetUserName'', Some ''alice''), (''IpResolved'', Some ''client1.local'')]"

definition row2 :: row where
  "row2 = [(''EventTime'', Some ''2023-01-02T00:00:00Z''), (''Computer'', Some ''host1.local''),
           (''EventData.IpAddress'', Some ''10.0.0.1''),
           (''EventData.TargetUserName'', Some ''bob''), (''IpResolved'', Some ''client1.local'')]"

definition rows0 :: "row list" where
  "rows0 = [row1, row2]"

text \<open>What the import of the two rows with the grid layout stores.\<close>

definition snap0 :: snapshot where
  "snap0 =
     \<lparr>nodes =
        [\<lparr>nid = ''client1'', label = ''client1 (10.0.0.1)'', nsize = 30, ip = Some ''10.0.0.1'',
          ncolor = Some ''blue'', pos = Some (0, 0, 0)\<rparr>,
         \<lparr>nid = ''host1'', label = ''host1 (10.0.0.1)'', nsize = 30, ip = None,
          ncolor = Some ''red'', pos = Some (300, 0, 0)\<rparr>],
      edges =
        [\<lparr>source = ''client1'', target = ''host1'', timestamp = 1672531200,
          user = Some ''alice'', ecolor = ''rgb(255, 0, 0)''\<rparr>,
         \<lparr>source = ''client1'', target = ''host1'', timestamp = 1672617600,
          user = Some ''bob'', ecolor = ''rgb(255, 0, 0)''\<rparr>]\<rparr>"

definition referential_integrity :: "snapshot \<Rightarrow> bool" where
  "referential_integrity s \<longleftrightarrow>
     (\<forall>e \<in> set (edges s). source e \<in> nid ` set (nodes s) \<and> target e \<in> nid ` set (nodes s))"

text \<open>
  A processed row: one with a non-empty event time, computer and source ip (the test of
  line 144 lets it through).
\<close>

definition processed :: "row \<Rightarrow> bool" where
  "processed r \<longleftrightarrow>
     truthy (row_get r ''EventTime'') \<and>
     (case row_get r ''Computer'' of None \<Rightarrow> False | Some c \<Rightarrow> strip_domain c \<noteq> []) \<and>
     truthy (row_get r ''EventData.IpAddress'')"

definition row_bad :: row where
  "row_bad = [(''EventTime'', Some ''yesterday''), (''Computer'', Some ''host2.local''),
              (''EventData.IpAddress'', Some ''10.0.0.2''),
              (''EventData.TargetUserName'', Some ''carol''), (''IpResolved'', Some '''')]"

text \<open>
  A row whose resolved name starts with a dot: the stripped name, and with it the id of
  the source node, is the empty string.
\<close>

definition row_anon :: row where
  "row_anon = [(''EventTime'', Some ''2023-01-01T00:00:00Z''), (''Computer'', Some ''host1.local''),
               (''EventData.IpAddress'', Some ''10.0.0.1''),
               (''EventData.TargetUserName'', Some ''alice''), (''IpResolved'', Some ''.local'')]"

definition snap_anon :: snapshot where
  "snap_anon =
     \<lparr>nodes =
        [\<lparr>nid = '''', label = '' (10.0.0.1)'', nsize = 30, ip = Some ''10.0.0.1'',
          ncolor = Some ''blue'', pos = Some (0, 0, 0)\<rparr>,
         \<lparr>nid = ''host1'', label = ''host1 (10.0.0.1)'', nsize = 30, ip = None,
          ncolor = Some ''red'', pos = Some (300, 0, 0)\<rparr>],
      edges =
        [\<lparr>source = '''', target = ''host1'', timestamp = 1672531200,
          user = Some ''alice'', ecolor = ''rgb(0, 0, 255)''\<rparr>]\<rparr>"

text \<open>
  The last second of the calendar day of a naive datetime: the end of the day in the words
  of the specification.
\<close>

definition end_of_day :: "int \<Rightarrow> int" where
  "end_of_day d = (d div 86400) * 86400 + 86399"

text \<open>
  The first row of the example and a logon of the same client on a second host: three nodes,
  of degrees 2, 1 and 1.
\<close>

definition row3 :: row where
  "row3 = [(''EventTime'', Some ''2023-01-02T00:00:00Z''), (''Computer'', Some ''host2.local''),
           (''EventData.IpAddress'', Some ''10.0.0.1''),
           (''EventData.TargetUserName'', Some ''bob''), (''IpResolved'', Some ''client1.local'')]"

definition rows3 :: "row list" where
  "rows3 = [row1, row3]"

definition snap3 :: snapshot where
  "snap3 =
     \<lparr>nodes =
        [\<lparr>nid = ''client1'', label = ''client1 (10.0.0.1)'', nsize = 30, ip = Some ''10.0.0.1'',
          ncolor = Some ''blue'', pos = Some (0, 0, 0)\<rparr>,
         \<lparr>nid = ''host1'', label = ''host1 (10.0.0.1)'', nsize = 20, ip = None,
          ncolor = Some ''red'', pos = Some (300, 0, 0)\<rparr>,
         \<lparr>nid = ''host2'', label = ''host2 (10.0.0.1)'', nsize = 20, ip = None,
          ncolor = Some ''red'', pos = Some (0, 300, 0)\<rparr>],
      edges =
        [\<lparr>source = ''client1'', target = ''host1'', timestamp = 1672531200,
          user = Some ''alice'', ecolor = ''rgb(0, 0, 255)''\<rparr>,
         \<lparr>source = ''client1'', target = ''host2'', timestamp = 1672617600,
          user = Some ''bob'', ecolor = ''rgb(0, 0, 255)''\<rparr>]\<rparr>"

text \<open>
  A row whose three cells are non-empty, whose event time is no timestamp and whose computer
  name starts with a dot, so that the stripped name is empty; and what the import of the
  first row of the example followed by this row stores.
\<close>

definition row_dot :: row where
  "row_dot = [(''EventTime'', Some ''yesterday''), (''Computer'', Some ''.local''),
              (''EventData.IpAddress'', Some ''10.0.0.2''),
              (''EventData.TargetUserName'', Some ''carol''), (''IpResolved'', Some '''')]"

definition rows_dot :: "row list" where
  "rows_dot = [row1, row_dot]"

definition snap_dot :: snapshot where
  "snap_dot =
     \<lparr>nodes =
        [\<lparr>nid = ''client1'', label = ''client1 (10.0.0.1)'', nsize = 30, ip = Some ''10.0.0.1'',
          ncolor = Some ''blue'', pos = Some (0, 0, 0)\<rparr>,
         \<lparr>nid = ''host1'', label = ''host1 (10.0.0.1)'', nsize = 30, ip = None,
          ncolor = Some ''red'', pos = Some (300, 0, 0)\<rparr>],
      edges =
        [\<lparr>source = ''client1'', target = ''host1'', timestamp = 1672531200,
          user = Some ''alice'', ecolor = ''rgb(0, 0, 255)''\<rparr>]\<rparr>"








section \<open>Properties\<close>

subsection \<open>Grid layout\<close>

lemma grid_size_le: "n \<le> grid_size n * grid_size n"
proof -
  have "sqrt (real n) \<le> real (grid_size n)"
    unfolding grid_size_def by linarith
  then have "sqrt (real n) * sqrt (real n) \<le> real (grid_size n) * real (grid_size n)"
    by (intro mult_mono) auto
  then have "real n \<le> real (grid_size n * grid_size n)"
    by simp
  then show ?thesis
    by linarith
qed

lemma grid_size_least: "n \<le> k * k \<Longrightarrow> grid_size n \<le> k"
proof -
  assume "n \<le> k * k"
  then have "real n \<le> (real k)\<^sup>2"
    by (metis of_nat_le_iff of_nat_mult power2_eq_square)
  then have "sqrt (real n) \<le> real k"
    by (simp add: real_le_lsqrt)
  then have "\<lceil>sqrt (real n)\<rceil> \<le> int k"
    by (simp add: ceiling_le_iff)
  then show ?thesis
    unfolding grid_size_def by linarith
qed

lemma sqrt_up_le: "n \<le> k * k \<Longrightarrow> n \<le> sqrt_up n k * sqrt_up n k"
  by (induction k) auto

lemma sqrt_up_bound: "sqrt_up n k \<le> k"
  by (induction k) auto

lemma sqrt_up_least: "n \<le> j * j \<Longrightarrow> j \<le> k \<Longrightarrow> sqrt_up n k \<le> j"
proof (induction k)
  case 0
  then show ?case by simp
next
  case (Suc k)
  show ?case
  proof (cases "k * k < n")
    case True
    with Suc.prems have "k < j"
      by (metis leD leI mult_le_mono order_trans)
    with Suc.prems True show ?thesis by simp
  next
    case False
    show ?thesis
    proof (cases "j = Suc k")
      case True
      with False sqrt_up_bound[of n k] show ?thesis by simp
    next
      case F: False
      with Suc.prems have "j \<le> k" by simp
      with Suc False show ?thesis by simp
    qed
  qed
qed

lemma grid_size_code [code]: "grid_size n = sqrt_up n n"
proof (rule antisym)
  have "n \<le> n * n" by (cases n) auto
  then have "n \<le> sqrt_up n n * sqrt_up n n" by (rule sqrt_up_le)
  then show "grid_size n \<le> sqrt_up n n" by (rule grid_size_least)
next
  have "grid_size n \<le> n"
    by (rule grid_size_least) (cases n, auto)
  with grid_size_le[of n] show "sqrt_up n n \<le> grid_size n"
    by (rule sqrt_up_least)
qed

lemma fold_update_other:
  "k \<notin> nid ` set ns \<Longrightarrow>
   map_of (fold (\<lambda>(index, n) acc. AList.update (nid n) (f index) acc) (enumerate j ns) acc0) k
     = map_of acc0 k"
  by (induction ns arbitrary: j acc0) (auto simp: update_conv')

lemma fold_update_nth:
  "distinct (map nid ns) \<Longrightarrow> i < length ns \<Longrightarrow>
   map_of (fold (\<lambda>(index, n) acc. AList.update (nid n) (f index) acc) (enumerate j ns) acc0)
     (nid (ns ! i)) = Some (f (j + i))"
proof (induction ns arbitrary: j acc0 i)
  case Nil
  then show ?case by simp
next
  case (Cons n ns)
  show ?case
  proof (cases i)
    case 0
    with Cons.prems show ?thesis
      by (simp add: fold_update_other update_conv')
  next
    case (Suc i')
    with Cons.prems Cons.IH[of i' "Suc j"] show ?thesis
      by simp
  qed
qed

lemma grid_index_lt:
  assumes "i < n"
  shows "i div grid_size n < grid_size n" and "i mod grid_size n < grid_size n"
proof -
  have "0 < grid_size n"
    using assms grid_size_le[of n] by (cases "grid_size n") auto
  then show "i mod grid_size n < grid_size n" by simp
  have "i < grid_size n * grid_size n"
    using assms grid_size_le[of n] by linarith
  then show "i div grid_size n < grid_size n"
    by (simp add: less_mult_imp_div_less)
qed

lemma grid_layout_nth:
  assumes "distinct (map nid node_list)" and "k < length node_list"
  shows "map_of (calculate_grid_layout node_list d) (nid (node_list ! k))
           = Some (real ((k mod grid_size (length node_list)) * d),
                   real ((k div grid_size (length node_list)) * d), 0)"
  using fold_update_nth[OF assms, of "grid_cell (grid_size (length node_list)) d" 0 "[]"]
  by (simp add: calculate_grid_layout_def grid_cell_def Let_def)

text \<open>
  C8. In the grid layout of a list of nodes with distinct ids, where \<open>g\<close> is
  \<open>ceil(sqrt(n))\<close> for the length \<open>n\<close> of the list (the definition of \<open>grid_size\<close>), the node at
  index \<open>i\<close> gets the position \<open>((i mod g) * 300, (i div g) * 300, 0)\<close>; its column
  \<open>i mod g\<close> and its row \<open>i div g\<close> are below \<open>g\<close>, so the nodes fit a \<open>g\<close> by \<open>g\<close> grid whose
  cells are 300 apart; and no other index gets the same position.
\<close>

theorem grid_layout_cells:
  assumes "distinct (map nid node_list)" and "i < length node_list"
  shows "map_of (calculate_grid_layout node_list 300) (nid (node_list ! i))
           = Some (real ((i mod grid_size (length node_list)) * 300),
                   real ((i div grid_size (length node_list)) * 300), 0)
       \<and> i mod grid_size (length node_list) < grid_size (length node_list)
       \<and> i div grid_size (length node_list) < grid_size (length node_list)
       \<and> (\<forall>j. j < length node_list \<and> j \<noteq> i \<longrightarrow>
            map_of (calculate_grid_layout node_list 300) (nid (node_list ! j))
              \<noteq> map_of (calculate_grid_layout node_list 300) (nid (node_list ! i)))"
proof -
  let ?g = "grid_size (length node_list)"
  have inj: "map_of (calculate_grid_layout node_list 300) (nid (node_list ! j))
              \<noteq> map_of (calculate_grid_layout node_list 300) (nid (node_list ! i))"
    if "j < length node_list" "j \<noteq> i" for j
  proof
    assume "map_of (calculate_grid_layout node_list 300) (nid (node_list ! j))
              = map_of (calculate_grid_layout node_list 300) (nid (node_list ! i))"
    then have "j mod ?g = i mod ?g" "j div ?g = i div ?g"
      using grid_layout_nth[OF assms(1) that(1), of 300] grid_layout_nth[OF assms, of 300]
      by simp_all
    then have "j = i"
      by (metis div_mult_mod_eq)
    with that show False by simp
  qed
  show ?thesis
    using grid_layout_nth[OF assms, of 300] grid_index_lt[OF assms(2)] inj
    by simp
qed

lemma sqrt_up_3: "sqrt_up 3 3 = 2"
  by (simp add: numeral_3_eq_3)

theorem grid_layout_cells_witness:
  "distinct (map nid [bare_node ''a'', bare_node ''b'', bare_node ''c''])
   \<and> (2::nat) < length [bare_node ''a'', bare_node ''b'', bare_node ''c'']
   \<and> map_of (calculate_grid_layout [bare_node ''a'', bare_node ''b'', bare_node ''c''] 300) ''c''
       = Some (0, 300, 0)
   \<and> map_of (calculate_grid_layout [bare_node ''a'', bare_node ''b'', bare_node ''c''] 300) ''a''
       \<noteq> map_of (calculate_grid_layout [bare_node ''a'', bare_node ''b'', bare_node ''c''] 300) ''c''"
proof -
  let ?ns = "[bare_node ''a'', bare_node ''b'', bare_node ''c'']"
  have d: "distinct (map nid ?ns)" by (simp add: bare_node_def)
  have l: "(2::nat) < length ?ns" by simp
  have g: "grid_size (length ?ns) = 2" by (simp add: grid_size_code sqrt_up_3)
  have c: "nid (?ns ! 2) = ''c''" and a: "nid (?ns ! 0) = ''a''"
    by (simp_all add: bare_node_def)
  from grid_layout_cells[OF d l] have
    "map_of (calculate_grid_layout ?ns 300) (nid (?ns ! 2)) = Some (0, 300, 0)"
    and "map_of (calculate_grid_layout ?ns 300) (nid (?ns ! 0))
          \<noteq> map_of (calculate_grid_layout ?ns 300) (nid (?ns ! 2))"
    unfolding g by auto
  then show ?thesis
    unfolding c a using d l by simp
qed

subsection \<open>What the row loop maintains\<close>


lemma update_present_keys:
  "map_of ns k = Some n \<Longrightarrow> fst ` set (AList.update k v ns) = fst ` set ns"
  by (auto simp: dom_update dest!: map_of_SomeD intro: rev_image_eqI)

lemma resolve_source_cases:
  assumes "resolve_source m a ns = (sid, lbl, ns1)"
  shows "sid = (case map_of m a of Some h \<Rightarrow> h | None \<Rightarrow> a)
       \<and> (ns1 = ns \<or> (\<exists>n. map_of ns sid = Some n \<and>
              ns1 = AList.update sid (n\<lparr>label := lbl, ip := Some a\<rparr>) ns))"
  using assms
  by (auto simp: resolve_source_def Let_def split: option.splits if_splits)

lemma resolve_source_keys:
  assumes "resolve_source m a ns = (sid, lbl, ns1)"
  shows "fst ` set ns1 = fst ` set ns"
    and "distinct (map fst ns) \<Longrightarrow> distinct (map fst ns1)"
    and "(\<forall>k n. map_of ns k = Some n \<longrightarrow> nid n = k) \<Longrightarrow> (\<forall>k n. map_of ns1 k = Some n \<longrightarrow> nid n = k)"
    and "sid = (case map_of m a of Some h \<Rightarrow> h | None \<Rightarrow> a)"
proof -
  from resolve_source_cases[OF assms]
  have c: "ns1 = ns \<or> (\<exists>n. map_of ns sid = Some n \<and>
              ns1 = AList.update sid (n\<lparr>label := lbl, ip := Some a\<rparr>) ns)"
    and s: "sid = (case map_of m a of Some h \<Rightarrow> h | None \<Rightarrow> a)"
    by blast+
  show "fst ` set ns1 = fst ` set ns"
    using c by (elim disjE exE conjE) (simp_all add: update_present_keys)
  show "distinct (map fst ns) \<Longrightarrow> distinct (map fst ns1)"
    using c by (auto simp: distinct_update)
  show "(\<forall>k n. map_of ns k = Some n \<longrightarrow> nid n = k) \<Longrightarrow> (\<forall>k n. map_of ns1 k = Some n \<longrightarrow> nid n = k)"
    using c by (auto simp: update_conv' split: if_splits)
  show "sid = (case map_of m a of Some h \<Rightarrow> h | None \<Rightarrow> a)"
    by (rule s)
qed

lemma add_source_node_keys:
  shows "fst ` set (add_source_node sid lbl a ns) = insert sid (fst ` set ns)"
    and "distinct (map fst ns) \<Longrightarrow> distinct (map fst (add_source_node sid lbl a ns))"
    and "(\<forall>k n. map_of ns k = Some n \<longrightarrow> nid n = k) \<Longrightarrow>
         (\<forall>k n. map_of (add_source_node sid lbl a ns) k = Some n \<longrightarrow> nid n = k)"
  by (auto simp: add_source_node_def dom_update distinct_update update_conv' map_of_eq_None_iff
      split: if_splits)

lemma add_target_node_keys:
  shows "fst ` set (add_target_node m c a ns) = insert c (fst ` set ns)"
    and "distinct (map fst ns) \<Longrightarrow> distinct (map fst (add_target_node m c a ns))"
    and "(\<forall>k n. map_of ns k = Some n \<longrightarrow> nid n = k) \<Longrightarrow>
         (\<forall>k n. map_of (add_target_node m c a ns) k = Some n \<longrightarrow> nid n = k)"
  by (auto simp: add_target_node_def dom_update distinct_update update_conv' map_of_eq_None_iff
      split: if_splits)

lemma map_of_bump:
  "map_of (bump k counts) = (map_of counts)(k \<mapsto> (case map_of counts k of None \<Rightarrow> 0 | Some c \<Rightarrow> c) + 1)"
  by (simp add: bump_def update_conv')

lemma distinct_bump: "distinct (map fst counts) \<Longrightarrow> distinct (map fst (bump k counts))"
  by (simp add: bump_def distinct_update)

lemma endpoints_snoc: "endpoints (es @ [e]) = insert (source e) (insert (target e) (endpoints es))"
  by (auto simp: endpoints_def)

lemma degree_snoc:
  "degree (es @ [e]) v = degree es v + (if source e = v then 1 else 0) + (if target e = v then 1 else 0)"
  by (simp add: degree_def)

lemma degree_pos_iff: "0 < degree es v \<longleftrightarrow> v \<in> endpoints es"
  by (auto simp: degree_def endpoints_def filter_empty_conv)

lemma group_indices_snoc:
  "group_indices (es @ [e]) key =
     group_indices es key @ (if pair_key e = key then [length es] else [])"
proof -
  have "filter (\<lambda>i. pair_key ((es @ [e]) ! i) = key) [0..<length es]
        = filter (\<lambda>i. pair_key (es ! i) = key) [0..<length es]"
    by (rule filter_cong) (auto simp: nth_append)
  then show ?thesis
    by (simp add: group_indices_def)
qed

lemma map_of_add_to_edge_group:
  "map_of (add_to_edge_group key i groups) =
     (map_of groups)(key \<mapsto> (case map_of groups key of None \<Rightarrow> [i] | Some g \<Rightarrow> g @ [i]))"
  by (simp add: add_to_edge_group_def update_conv' split: option.splits)

lemma distinct_add_to_edge_group:
  "distinct (map fst groups) \<Longrightarrow> distinct (map fst (add_to_edge_group key i groups))"
  by (simp add: add_to_edge_group_def distinct_update split: option.splits)


lemma truthy_Some: "truthy cell \<longleftrightarrow> (\<exists>v. cell = Some v \<and> v \<noteq> [])"
  by (auto simp: truthy_def split: option.splits)

lemma process_row_cases:
  assumes "process_row L m r b = Inr b'"
  shows "b' = b \<or>
    (\<exists>c a et t sid lbl ns1.
        row_get r ''Computer'' = Some c \<and> strip_domain c \<noteq> [] \<and>
        row_get r ''EventData.IpAddress'' = Some a \<and> a \<noteq> [] \<and>
        row_get r ''EventTime'' = Some et \<and> et \<noteq> [] \<and> isoparse L et = Some t \<and>
        resolve_source m a (b_nodes b) = (sid, lbl, ns1) \<and>
        b' = \<lparr>b_nodes = add_target_node m (strip_domain c) a (add_source_node sid lbl a ns1),
              b_edges = b_edges b @ [\<lparr>source = sid, target = strip_domain c, timestamp = t,
                                      user = row_get r ''EventData.TargetUserName'', ecolor = []\<rparr>],
              edge_groups = add_to_edge_group (sorted_pair sid (strip_domain c))
                              (length (b_edges b)) (edge_groups b),
              node_edge_count = bump (strip_domain c) (bump sid (node_edge_count b))\<rparr>)"
proof (cases "row_get r ''Computer''")
  case None
  with assms show ?thesis by (simp add: process_row_def)
next
  case (Some c)
  show ?thesis
  proof (cases "\<not> truthy (row_get r ''EventTime'') \<or> strip_domain c = [] \<or>
                \<not> truthy (row_get r ''EventData.IpAddress'')")
    case True
    with assms Some show ?thesis by (auto simp: process_row_def Let_def)
  next
    case False
    then obtain et a where et: "row_get r ''EventTime'' = Some et" "et \<noteq> []"
      and a: "row_get r ''EventData.IpAddress'' = Some a" "a \<noteq> []"
      and c: "strip_domain c \<noteq> []"
      by (auto simp: truthy_Some)
    obtain sid lbl ns1 where rs: "resolve_source m a (b_nodes b) = (sid, lbl, ns1)"
      by (cases "resolve_source m a (b_nodes b)") auto
    from assms Some et a c rs show ?thesis
      by (auto simp: process_row_def Let_def truthy_def split: option.splits)
  qed
qed

lemma build_inv_empty: "build_inv empty_build"
  by (simp add: build_inv_def empty_build_def endpoints_def group_indices_def)


lemma degree_zero: "v \<notin> endpoints es \<Longrightarrow> degree es v = 0"
  using degree_pos_iff[of es v] by simp

lemma count_step:
  assumes cnt: "\<And>k. map_of cs k = (if k \<in> endpoints es then Some (degree es k) else None)"
  shows "map_of (bump (target e) (bump (source e) cs)) k =
            (if k \<in> endpoints (es @ [e]) then Some (degree (es @ [e]) k) else None)"
proof -
  have b1: "map_of (bump (source e) cs) j =
        (if j = source e then Some (degree es j + 1)
         else if j \<in> endpoints es then Some (degree es j) else None)" for j
    by (auto simp: map_of_bump cnt degree_zero)
  show ?thesis
    by (auto simp: map_of_bump[of "target e"] b1 cnt endpoints_snoc degree_snoc degree_zero)
qed

lemma group_step:
  assumes grp: "\<And>key. map_of gs key =
              (if group_indices es key = [] then None else Some (group_indices es key))"
  shows "map_of (add_to_edge_group (pair_key e) (length es) gs) key =
              (if group_indices (es @ [e]) key = [] then None
               else Some (group_indices (es @ [e]) key))"
  by (simp add: map_of_add_to_edge_group grp group_indices_snoc)


lemma process_row_inv:
  assumes "process_row L m r b = Inr b'" and inv: "build_inv b"
  shows "build_inv b'"
proof -
  from process_row_cases[OF assms(1)] show ?thesis
  proof (elim disjE exE conjE)
    assume "b' = b" with inv show ?thesis by simp
  next
    fix c a et t sid lbl ns1
    assume rs: "resolve_source m a (b_nodes b) = (sid, lbl, ns1)"
      and b': "b' = \<lparr>b_nodes = add_target_node m (strip_domain c) a (add_source_node sid lbl a ns1),
              b_edges = b_edges b @ [\<lparr>source = sid, target = strip_domain c, timestamp = t,
                                      user = row_get r ''EventData.TargetUserName'', ecolor = []\<rparr>],
              edge_groups = add_to_edge_group (sorted_pair sid (strip_domain c))
                              (length (b_edges b)) (edge_groups b),
              node_edge_count = bump (strip_domain c) (bump sid (node_edge_count b))\<rparr>"
    define e where "e = \<lparr>source = sid, target = strip_domain c, timestamp = t,
               user = row_get r ''EventData.TargetUserName'', ecolor = []\<rparr>"
    have e: "source e = sid" "target e = strip_domain c" "ecolor e = []"
      "pair_key e = sorted_pair sid (strip_domain c)"
      by (simp_all add: e_def pair_key_def)
    have bn: "b_nodes b' = add_target_node m (target e) a (add_source_node (source e) lbl a ns1)"
      and be: "b_edges b' = b_edges b @ [e]"
      and bg: "edge_groups b' = add_to_edge_group (pair_key e) (length (b_edges b)) (edge_groups b)"
      and bc: "node_edge_count b' = bump (target e) (bump (source e) (node_edge_count b))"
      by (simp_all add: b' e) (simp add: e_def)
    from inv[unfolded build_inv_def] have d: "distinct (map fst (b_nodes b))"
      and ki: "\<forall>k n. map_of (b_nodes b) k = Some n \<longrightarrow> nid n = k"
      and ks: "fst ` set (b_nodes b) = endpoints (b_edges b)"
      and cnt: "\<And>k. map_of (node_edge_count b) k =
            (if k \<in> endpoints (b_edges b) then Some (degree (b_edges b) k) else None)"
      and dc: "distinct (map fst (node_edge_count b))"
      and dg: "distinct (map fst (edge_groups b))"
      and grp: "\<And>key. map_of (edge_groups b) key =
              (if group_indices (b_edges b) key = [] then None
               else Some (group_indices (b_edges b) key))"
      and col: "\<forall>e \<in> set (b_edges b). ecolor e = []"
      by blast+
    have 1: "distinct (map fst (b_nodes b'))"
      unfolding bn using resolve_source_keys(2)[OF rs d]
      by (simp add: add_target_node_keys(2) add_source_node_keys(2))
    have 2: "\<forall>k n. map_of (b_nodes b') k = Some n \<longrightarrow> nid n = k"
      unfolding bn using resolve_source_keys(3)[OF rs ki]
      by (intro add_target_node_keys(3) add_source_node_keys(3))
    have 3: "fst ` set (b_nodes b') = endpoints (b_edges b')"
      unfolding bn be using resolve_source_keys(1)[OF rs] ks
      by (simp add: add_target_node_keys(1) add_source_node_keys(1) endpoints_snoc insert_commute)
    have 4: "\<forall>k. map_of (node_edge_count b') k =
            (if k \<in> endpoints (b_edges b') then Some (degree (b_edges b') k) else None)"
      unfolding bc be using count_step[of "node_edge_count b" "b_edges b" e, OF cnt] by blast
    have 5: "distinct (map fst (node_edge_count b'))"
      unfolding bc using dc by (simp add: distinct_bump)
    have 6: "distinct (map fst (edge_groups b'))"
      unfolding bg using dg by (simp add: distinct_add_to_edge_group)
    have 7: "\<forall>key. map_of (edge_groups b') key =
              (if group_indices (b_edges b') key = [] then None
               else Some (group_indices (b_edges b') key))"
      unfolding bg be using group_step[of "edge_groups b" "b_edges b" e, OF grp] by blast
    have 8: "\<forall>e \<in> set (b_edges b'). ecolor e = []"
      unfolding be using col e(3) by simp
    show ?thesis
      unfolding build_inv_def using 1 2 3 4 5 6 7 8 by blast
  qed
qed

lemma process_rows_inv:
  "process_rows L m rs b = Inr b' \<Longrightarrow> build_inv b \<Longrightarrow> build_inv b'"
  by (induction rs arbitrary: b) (auto split: sum.splits dest: process_row_inv)

subsection \<open>Styling and coloring\<close>

lemma fold_max_eq: "fold max xs (x::nat) = Max (insert x (set xs))"
proof (induction xs arbitrary: x)
  case Nil
  then show ?case by simp
next
  case (Cons y ys)
  have "Max (insert (max y x) (set ys)) = Max (insert x (insert y (set ys)))"
    by (cases "set ys = {}") (auto simp: max.commute max.left_commute)
  with Cons show ?case by simp
qed

lemma py_max_Some: "py_max xs = Some m \<longleftrightarrow> xs \<noteq> [] \<and> m = Max (set xs)"
  by (cases xs) (auto simp: fold_max_eq)

lemma py_max_None: "py_max xs = None \<longleftrightarrow> xs = []"
  by (cases xs) auto

lemma style_node_Inr:
  assumes "style_node m counts mx (k, n) = Inr kn'"
  shows "\<exists>d c. map_of counts k = Some d \<and> mx \<noteq> 0 \<and>
           kn' = (k, n\<lparr>ncolor := Some c, nsize := 10 + (real d / real mx) * 20\<rparr>)"
  using assms
  by (auto simp: style_node_def calculate_node_size_def Let_def split: option.splits if_splits)

lemma style_nodes_Inr:
  assumes "style_nodes m counts mx ns = Inr styled"
  shows "list_all2 (\<lambda>kn kn'. fst kn' = fst kn \<and>
            (\<exists>d c. map_of counts (fst kn) = Some d \<and> mx \<noteq> 0 \<and>
               snd kn' = (snd kn)\<lparr>ncolor := Some c, nsize := 10 + (real d / real mx) * 20\<rparr>))
          ns styled"
  using assms
proof (induction ns arbitrary: styled)
  case Nil
  then show ?case by simp
next
  case (Cons kn rest)
  obtain k n where kn: "kn = (k, n)" by (cases kn)
  from Cons.prems obtain kn' rest' where
    1: "style_node m counts mx (k, n) = Inr kn'" and
    2: "style_nodes m counts mx rest = Inr rest'" and
    3: "styled = kn' # rest'"
    by (auto simp: kn split: sum.splits)
  from style_node_Inr[OF 1] Cons.IH[OF 2] show ?case
    by (auto simp: 3 kn)
qed

lemma fold_recolor:
  "length (fold (\<lambda>i es'. es'[i := (es' ! i)\<lparr>ecolor := c\<rparr>]) g es) = length es \<and>
   (\<forall>j < length es. fold (\<lambda>i es'. es'[i := (es' ! i)\<lparr>ecolor := c\<rparr>]) g es ! j =
        (if j \<in> set g then (es ! j)\<lparr>ecolor := c\<rparr> else es ! j))"
proof (induction g arbitrary: es)
  case Nil
  then show ?case by simp
next
  case (Cons i g)
  let ?es1 = "es[i := (es ! i)\<lparr>ecolor := c\<rparr>]"
  have "(?es1 ! j)\<lparr>ecolor := c\<rparr> = (es ! j)\<lparr>ecolor := c\<rparr>" if "j < length es" for j
    using that by (cases "j = i") simp_all
  with Cons[of ?es1] show ?case
    by (auto simp: nth_list_update)
qed

lemma color_group_nth:
  assumes "j < length es"
  shows "color_group L mx grp es ! j =
        (if j \<in> set (snd grp) then (es ! j)\<lparr>ecolor := calculate_edge_color L (length (snd grp)) mx\<rparr>
         else es ! j)"
    and "length (color_group L mx grp es) = length es"
  using fold_recolor[of "calculate_edge_color L (length (snd grp)) mx" "snd grp" es] assms
  by (simp_all add: color_group_def Let_def)

lemma length_color_group: "length (color_group L mx grp es) = length es"
  using fold_recolor[of "calculate_edge_color L (length (snd grp)) mx" "snd grp" es]
  by (simp add: color_group_def Let_def)

lemma fold_color_group:
  "length (fold (color_group L mx) gs es) = length es \<and>
   (\<forall>j < length es.
      source (fold (color_group L mx) gs es ! j) = source (es ! j) \<and>
      target (fold (color_group L mx) gs es ! j) = target (es ! j) \<and>
      timestamp (fold (color_group L mx) gs es ! j) = timestamp (es ! j) \<and>
      user (fold (color_group L mx) gs es ! j) = user (es ! j) \<and>
      ((\<forall>grp \<in> set gs. j \<in> set (snd grp) \<longrightarrow> length (snd grp) = sz) \<longrightarrow>
       ecolor (fold (color_group L mx) gs es ! j) =
         (if \<exists>grp \<in> set gs. j \<in> set (snd grp) then calculate_edge_color L sz mx
          else ecolor (es ! j))))"
proof (induction gs arbitrary: es)
  case Nil
  then show ?case by simp
next
  case (Cons grp gs)
  from Cons[of "color_group L mx grp es"] show ?case
    by (auto simp: length_color_group color_group_nth(1))
qed

lemma sorted_pair_eq_iff: "sorted_pair a b = sorted_pair c d \<longleftrightarrow> {a, b} = {c, d}"
  by (auto simp: sorted_pair_def doubleton_eq_iff)

lemma pair_key_eq_iff: "pair_key e = pair_key f \<longleftrightarrow> same_pair f e"
  by (auto simp: pair_key_def same_pair_def sorted_pair_eq_iff)

lemma degree_ends:
  "degree es v = length (filter (\<lambda>p. fst p = v) (ends es)) + length (filter (\<lambda>p. snd p = v) (ends es))"
  by (simp add: degree_def ends_def filter_map o_def)

lemma endpoints_ends: "endpoints es = fst ` set (ends es) \<union> snd ` set (ends es)"
  by (auto simp: endpoints_def ends_def image_iff)

lemma group_size_ends:
  "group_size es e = length (filter (\<lambda>p. {source e, target e} = {fst p, snd p}) (ends es))"
  by (simp add: group_size_def ends_def filter_map o_def same_pair_def cong: filter_cong)

lemma length_group_indices:
  "length (group_indices es (pair_key e)) = group_size es e"
proof -
  have "group_size es e = length (filter (same_pair e) (map (nth es) [0..<length es]))"
    by (simp add: group_size_def map_nth)
  also have "\<dots> = length (filter (\<lambda>i. same_pair e (es ! i)) [0..<length es])"
    by (simp add: filter_map o_def)
  also have "\<dots> = length (group_indices es (pair_key e))"
    by (simp add: group_indices_def pair_key_eq_iff)
  finally show ?thesis by simp
qed

lemma mem_group_indices: "j \<in> set (group_indices es key) \<longleftrightarrow> j < length es \<and> pair_key (es ! j) = key"
  by (auto simp: group_indices_def)

lemma groups_set:
  assumes d: "distinct (map fst gs)"
    and m: "\<And>key. map_of gs key =
              (if group_indices es key = [] then None else Some (group_indices es key))"
  shows "(key, g) \<in> set gs \<longleftrightarrow> g = group_indices es key \<and> g \<noteq> []"
  using map_of_eq_Some_iff[OF d, of key g] m[of key] by (auto split: if_splits)

lemma max_group_sizes:
  assumes d: "distinct (map fst gs)"
    and m: "\<And>key. map_of gs key =
              (if group_indices es key = [] then None else Some (group_indices es key))"
  shows "py_max (map (\<lambda>g. length (snd g)) gs) =
           (if es = [] then None else Some (max_group_size es))"
proof (cases "es = []")
  case True
  have "gs = []"
  proof (cases gs)
    case (Cons p ps)
    then have "(fst p, snd p) \<in> set gs" by simp
    then show ?thesis
      using groups_set[OF d m, of "fst p" "snd p"] True by (simp add: group_indices_def)
  qed simp
  with True show ?thesis by simp
next
  case False
  have "(\<lambda>g. length (snd g)) ` set gs = group_size es ` set es"
  proof (intro set_eqI iffI)
    fix x assume "x \<in> (\<lambda>g. length (snd g)) ` set gs"
    then obtain key g where kg: "(key, g) \<in> set gs" and x: "x = length g" by auto
    from kg groups_set[OF d m, of key g] have g: "g = group_indices es key" "g \<noteq> []" by auto
    then obtain j where "j \<in> set g" by (cases g) force+
    with g have j: "j < length es" "pair_key (es ! j) = key" by (auto simp: mem_group_indices)
    then have "x = group_size es (es ! j)"
      using x g length_group_indices[of es "es ! j"] by simp
    with j show "x \<in> group_size es ` set es" by auto
  next
    fix x assume "x \<in> group_size es ` set es"
    then obtain e where e: "e \<in> set es" and x: "x = group_size es e" by auto
    from e obtain j where j: "j < length es" "es ! j = e" by (auto simp: in_set_conv_nth)
    then have "j \<in> set (group_indices es (pair_key e))" by (simp add: mem_group_indices)
    then have "(pair_key e, group_indices es (pair_key e)) \<in> set gs"
      using groups_set[OF d m, of "pair_key e" "group_indices es (pair_key e)"] by auto
    then show "x \<in> (\<lambda>g. length (snd g)) ` set gs"
      using x length_group_indices[of es e] by force
  qed
  moreover have "gs \<noteq> []"
    using calculation False by auto
  ultimately show ?thesis
    using False by (simp add: py_max_Some max_group_size_def)
qed

lemma count_values:
  assumes d: "distinct (map fst cs)"
    and m: "\<And>k. map_of cs k = (if k \<in> E then Some (f k) else None)"
  shows "set (map snd cs) = f ` E"
proof (intro set_eqI iffI)
  fix x assume "x \<in> set (map snd cs)"
  then obtain k where "(k, x) \<in> set cs" by auto
  then have "map_of cs k = Some x" using d by simp
  with m[of k] show "x \<in> f ` E" by (auto split: if_splits)
next
  fix x assume "x \<in> f ` E"
  then obtain k where "k \<in> E" "x = f k" by auto
  with m[of k] have "map_of cs k = Some x" by simp
  then have "(k, x) \<in> set cs" by (rule map_of_SomeD)
  then show "x \<in> set (map snd cs)" by force
qed

lemma ends_color_edges:
  assumes "color_edges L gs es = Inr es'"
  shows "ends es' = ends es" and "length es' = length es" and "es \<noteq> [] \<or> gs \<noteq> []"
proof -
  from assms obtain mx where es': "es' = fold (color_group L mx) gs es"
    and mx: "py_max (map (\<lambda>g. length (snd g)) gs) = Some mx"
    by (auto simp: color_edges_def split: option.splits)
  show l: "length es' = length es"
    using fold_color_group[of L mx gs es] by (simp add: es')
  show "ends es' = ends es"
    unfolding ends_def
    by (rule nth_equalityI) (use l fold_color_group[of L mx gs es] in \<open>auto simp: es'\<close>)
  from mx show "es \<noteq> [] \<or> gs \<noteq> []" by (auto simp: py_max_Some)
qed

lemma same_ends:
  assumes "ends es' = ends es"
  shows "degree es' = degree es" and "endpoints es' = endpoints es"
    and "max_degree es' = max_degree es"
    and "source e' = source e \<Longrightarrow> target e' = target e \<Longrightarrow> group_size es' e' = group_size es e"
  using assms by (auto simp: degree_ends endpoints_ends group_size_ends max_degree_def fun_eq_iff)

lemma same_ends_max_group:
  assumes "ends es' = ends es"
  shows "max_group_size es' = max_group_size es"
proof -
  have "group_size es' ` set es' = group_size es ` set es"
  proof -
    have a: "group_size es e = (\<lambda>p. length (filter (\<lambda>q. {fst p, snd p} = {fst q, snd q}) (ends es)))
               (source e, target e)" for es e
      by (simp add: group_size_ends)
    have "group_size es ` set es
         = (\<lambda>p. length (filter (\<lambda>q. {fst p, snd p} = {fst q, snd q}) (ends es))) ` set (ends es)" for es
      by (auto simp: a ends_def image_iff)
    then show ?thesis using assms by simp
  qed
  then show ?thesis by (simp add: max_group_size_def)
qed

subsection \<open>Every stored snapshot is well formed\<close>

lemma list_all2_map_eq:
  "list_all2 R xs ys \<Longrightarrow> (\<And>x y. x \<in> set xs \<Longrightarrow> R x y \<Longrightarrow> f x = g y) \<Longrightarrow> map f xs = map g ys"
  by (induction rule: list_all2_induct) auto

lemma list_all2_in_right:
  "list_all2 R xs ys \<Longrightarrow> y \<in> set ys \<Longrightarrow> \<exists>x \<in> set xs. R x y"
  by (induction rule: list_all2_induct) auto

lemma color_edges_colors:
  assumes ce: "color_edges L gs es = Inr es'"
    and d: "distinct (map fst gs)"
    and m: "\<And>key. map_of gs key =
              (if group_indices es key = [] then None else Some (group_indices es key))"
    and j: "j < length es"
  shows "ecolor (es' ! j) = calculate_edge_color L (group_size es (es ! j)) (max_group_size es)"
proof -
  from j have ne: "es \<noteq> []" by auto
  from ce max_group_sizes[OF d m] ne
  have es': "es' = fold (color_group L (max_group_size es)) gs es"
    by (auto simp: color_edges_def split: option.splits)
  let ?key = "pair_key (es ! j)"
  have in_g: "(?key, group_indices es ?key) \<in> set gs"
    using groups_set[OF d m, of ?key "group_indices es ?key"] j
      mem_group_indices[of j es ?key] by auto
  have sz: "\<forall>grp \<in> set gs. j \<in> set (snd grp) \<longrightarrow> length (snd grp) = group_size es (es ! j)"
  proof (intro ballI impI)
    fix grp assume g: "grp \<in> set gs" and jg: "j \<in> set (snd grp)"
    from g have "(fst grp, snd grp) \<in> set gs" by simp
    with groups_set[OF d m] have "snd grp = group_indices es (fst grp)" by blast
    moreover from this jg have "fst grp = ?key" by (simp add: mem_group_indices)
    ultimately show "length (snd grp) = group_size es (es ! j)"
      by (simp add: length_group_indices)
  qed
  have ex: "\<exists>grp \<in> set gs. j \<in> set (snd grp)"
    using in_g j by (force simp: mem_group_indices)
  from fold_color_group[of L "max_group_size es" gs es "group_size es (es ! j)"] j sz ex
  show ?thesis by (simp add: es')
qed

lemma build_snapshot_cases:
  assumes "build_snapshot L rng file layout = Inr s"
  shows "\<exists>reader b styled ps.
      file = Csv reader \<and>
      process_rows L (fold resolve_row reader []) reader empty_build = Inr b \<and>
      style_nodes (fold resolve_row reader []) (node_edge_count b)
               (py_max_default (map snd (node_edge_count b)) 1) (b_nodes b) = Inr styled \<and>
      color_edges L (edge_groups b) (b_edges b) = Inr (edges s) \<and>
      layout_positions L rng layout (map snd styled) (edges s) = Inr ps \<and>
      nodes s = map (place ps) styled"
proof (cases "file")
  case Unreadable
  with assms show ?thesis by (simp add: build_snapshot_def)
next
  case (Csv reader)
  let ?m = "fold resolve_row reader []"
  from assms Csv obtain b where b: "process_rows L ?m reader empty_build = Inr b"
    by (auto simp: build_snapshot_def Let_def split: sum.splits)
  let ?mx = "py_max_default (map snd (node_edge_count b)) 1"
  from assms Csv b obtain styled where st: "style_nodes ?m (node_edge_count b) ?mx (b_nodes b) = Inr styled"
    by (auto simp: build_snapshot_def Let_def simp del: One_nat_def split: sum.splits)
  from assms Csv b st obtain es where es: "color_edges L (edge_groups b) (b_edges b) = Inr es"
    by (auto simp: build_snapshot_def Let_def simp del: One_nat_def split: sum.splits)
  from assms Csv b st es obtain ps where ps: "layout_positions L rng layout (map snd styled) es = Inr ps"
    by (auto simp: build_snapshot_def Let_def simp del: One_nat_def split: sum.splits)
  from assms Csv b st es ps have "s = \<lparr>nodes = map (place ps) styled, edges = es\<rparr>"
    by (simp add: build_snapshot_def Let_def del: One_nat_def)
  with Csv b st es ps show ?thesis by simp
qed

lemma build_snapshot_inv:
  assumes "build_snapshot L rng file layout = Inr s"
  shows "snapshot_inv L s"
proof -
  from build_snapshot_cases[OF assms] obtain reader b styled ps where
    pr: "process_rows L (fold resolve_row reader []) reader empty_build = Inr b"
    and st: "style_nodes (fold resolve_row reader []) (node_edge_count b)
               (py_max_default (map snd (node_edge_count b)) 1) (b_nodes b) = Inr styled"
    and ce: "color_edges L (edge_groups b) (b_edges b) = Inr (edges s)"
    and s: "nodes s = map (place ps) styled"
    by blast
  define es where "es = edges s"
  note ce = ce[folded es_def]
  have inv: "build_inv b"
    using process_rows_inv[OF pr build_inv_empty] .
  from inv[unfolded build_inv_def] have d: "distinct (map fst (b_nodes b))"
    and ki: "\<And>k n. map_of (b_nodes b) k = Some n \<Longrightarrow> nid n = k"
    and ks: "fst ` set (b_nodes b) = endpoints (b_edges b)"
    and cnt: "\<And>k. map_of (node_edge_count b) k =
          (if k \<in> endpoints (b_edges b) then Some (degree (b_edges b) k) else None)"
    and dc: "distinct (map fst (node_edge_count b))"
    and dg: "distinct (map fst (edge_groups b))"
    and grp: "\<And>key. map_of (edge_groups b) key =
            (if group_indices (b_edges b) key = [] then None
             else Some (group_indices (b_edges b) key))"
    by blast+
  let ?es0 = "b_edges b"
  let ?mx = "py_max_default (map snd (node_edge_count b)) 1"
  let ?post = "place ps"
  have en: "ends es = ends ?es0" and len: "length es = length ?es0"
    using ends_color_edges[OF ce] by simp_all
  have ne0: "?es0 \<noteq> []"
    using ce max_group_sizes[OF dg grp]
    by (auto simp: color_edges_def split: option.splits if_splits)
  then have ne: "es \<noteq> []" using len by auto
  have mx: "?mx = max_degree ?es0"
  proof -
    have v: "set (map snd (node_edge_count b)) = degree ?es0 ` endpoints ?es0"
      by (rule count_values[OF dc cnt])
    from ne0 have "endpoints ?es0 \<noteq> {}"
      by (cases ?es0) (auto simp: endpoints_def)
    with v have "map snd (node_edge_count b) \<noteq> []" by auto
    then obtain m where "py_max (map snd (node_edge_count b)) = Some m"
      "m = Max (set (map snd (node_edge_count b)))"
      using py_max_Some[of "map snd (node_edge_count b)"] by blast
    then show ?thesis
      by (simp add: py_max_default_def max_degree_def v del: set_map)
  qed
  note all2 = style_nodes_Inr[OF st]
  have ids: "map nid (nodes s) = map fst (b_nodes b)"
  proof -
    have "map fst (b_nodes b) = map (\<lambda>kn'. nid (place ps kn')) styled"
    proof (rule list_all2_map_eq[OF all2])
      fix x y :: "string \<times> node"
      assume x: "x \<in> set (b_nodes b)" and "fst y = fst x \<and>
          (\<exists>d c. map_of (node_edge_count b) (fst x) = Some d \<and> ?mx \<noteq> 0 \<and>
                 snd y = (snd x)\<lparr>ncolor := Some c, nsize := 10 + real d / real ?mx * 20\<rparr>)"
      then have "nid (snd y) = nid (snd x)" by auto
      moreover have "nid (snd x) = fst x"
        using ki[of "fst x" "snd x"] d x by simp
      ultimately show "fst x = nid (place ps y)"
        by (simp add: place_def split: option.splits)
    qed
    then show ?thesis by (simp add: s o_def)
  qed
  have 1: "distinct (map nid (nodes s))"
    using ids d by simp
  have 2: "nid ` set (nodes s) = endpoints (edges s)"
  proof -
    have "nid ` set (nodes s) = set (map nid (nodes s))" by simp
    also have "\<dots> = fst ` set (b_nodes b)" unfolding ids by simp
    finally show ?thesis
      using ks same_ends(2)[OF en] by (simp add: es_def)
  qed
  have 3: "edges s \<noteq> []"
    using ne by (simp add: es_def)
  have 4: "\<forall>n \<in> set (nodes s).
        nsize n = 10 + (real (degree (edges s) (nid n)) / real (max_degree (edges s))) * 20"
  proof
    fix n assume "n \<in> set (nodes s)"
    then obtain y where y: "y \<in> set styled" and n: "n = place ps y"
      by (auto simp: s)
    from list_all2_in_right[OF all2 y] obtain x dd c where
      x: "x \<in> set (b_nodes b)" and f: "fst y = fst x"
      and dd: "map_of (node_edge_count b) (fst x) = Some dd"
      and sy: "snd y = (snd x)\<lparr>ncolor := Some c, nsize := 10 + real dd / real ?mx * 20\<rparr>"
      by blast
    have nx: "nid (snd x) = fst x"
      using ki[of "fst x" "snd x"] d x by simp
    from dd cnt[of "fst x"] have deg: "dd = degree ?es0 (fst x)"
      by (auto split: if_splits)
    have "nid n = fst x" "nsize n = 10 + real dd / real ?mx * 20"
      using sy nx by (simp_all add: n place_def split: option.splits)
    then show "nsize n = 10 + (real (degree (edges s) (nid n)) / real (max_degree (edges s))) * 20"
      using deg mx same_ends(1,3)[OF en] by (simp add: es_def)
  qed
  have 5: "\<forall>e \<in> set (edges s).
        ecolor e = calculate_edge_color L (group_size (edges s) e) (max_group_size (edges s))"
  proof
    fix e assume "e \<in> set (edges s)"
    then obtain j where j: "j < length es" and e: "e = es ! j"
      by (auto simp: es_def in_set_conv_nth)
    from j len have j0: "j < length ?es0" by simp
    have "ends es ! j = ends ?es0 ! j" using en by simp
    then have st: "source (es ! j) = source (?es0 ! j)" "target (es ! j) = target (?es0 ! j)"
      using j j0 by (simp_all add: ends_def)
    have "ecolor e = calculate_edge_color L (group_size ?es0 (?es0 ! j)) (max_group_size ?es0)"
      unfolding e by (rule color_edges_colors[OF ce dg grp j0])
    also have "group_size ?es0 (?es0 ! j) = group_size es e"
      unfolding e by (rule same_ends(4)[OF en st, symmetric])
    also have "max_group_size ?es0 = max_group_size es"
      by (rule same_ends_max_group[OF en, symmetric])
    finally show "ecolor e = calculate_edge_color L (group_size (edges s) e) (max_group_size (edges s))"
      by (simp add: es_def)
  qed
  show ?thesis
    unfolding snapshot_inv_def using 1 2 3 4 5 by blast
qed

lemma apply_positions_fields:
  "map nid (apply_positions ps ns) = map nid ns"
  "map nsize (apply_positions ps ns) = map nsize ns"
  by (simp_all add: apply_positions_def o_def split: option.splits cong: map_cong)

lemma apply_positions_inv:
  assumes "snapshot_inv L s"
  shows "snapshot_inv L (s\<lparr>nodes := apply_positions ps (nodes s)\<rparr>)"
proof -
  have a: "n' \<in> set (apply_positions ps (nodes s)) \<Longrightarrow>
        \<exists>n \<in> set (nodes s). nid n' = nid n \<and> nsize n' = nsize n" for n'
    by (auto simp: apply_positions_def split: option.splits)
  have b: "nid ` set (apply_positions ps (nodes s)) = nid ` set (nodes s)"
    using apply_positions_fields(1)[of ps "nodes s"] by (metis set_map)
  show ?thesis
    using assms apply_positions_fields(1)[of ps "nodes s"] b
    unfolding snapshot_inv_def
    by (auto dest!: a)
qed

lemma upload_file_state:
  assumes "upload_file L rng f layout cur = (resp, cur')"
  shows "cur' = cur \<or> (\<exists>s lay. build_snapshot L rng (the f) lay = Inr s \<and> cur' = Some s)"
  using assms
  by (auto simp: upload_file_def process_csv_def split: option.splits sum.splits if_splits)

lemma update_layout_state:
  assumes "update_layout L rng layout cur = (resp, cur')"
  shows "cur' = cur \<or> (\<exists>s ps. cur = Some s \<and> cur' = Some (s\<lparr>nodes := apply_positions ps (nodes s)\<rparr>))"
  using assms
  by (auto simp: update_layout_def Let_def split: option.splits sum.splits if_splits)

lemma stored_inv:
  "stored L cur \<Longrightarrow> cur = Some s \<Longrightarrow> snapshot_inv L s"
proof (induction arbitrary: s rule: stored.induct)
  case initial
  then show ?case by simp
next
  case (upload cur rng f layout resp cur')
  from upload_file_state[OF upload.hyps(2)] upload.IH upload.prems
  show ?case by (auto dest: build_snapshot_inv)
next
  case (relayout cur rng layout resp cur')
  from update_layout_state[OF relayout.hyps(2)] relayout.IH relayout.prems
  show ?case by (auto dest: apply_positions_inv)
qed

subsection \<open>The example of the specification, run\<close>

lemmas parse_defs = utc_stamp_def minute_stamp_def number_def digit_val_def days_from_civil_def
  days_in_month_def leap_year_def

lemmas row_defs = process_row_def row_get_def truthy_def strip_domain_def parse_defs
      resolve_source_def add_source_node_def add_target_node_def
      add_to_edge_group_def bump_def sorted_pair_def Let_def

lemma ev_resolve: "fold resolve_row rows0 [] = [(''10.0.0.1'', ''client1'')]"
  by (simp add: rows0_def resolve_row_def row1_def row2_def row_get_def truthy_def strip_domain_def)

lemma ev_row1: "process_row lib0 [(''10.0.0.1'', ''client1'')] row1 empty_build =
    Inr \<lparr>b_nodes =
           [(''client1'',
             \<lparr>nid = ''client1'', label = ''client1 (10.0.0.1)'', nsize = 10,
                ip = Some ''10.0.0.1'', ncolor = None, pos = None\<rparr>),
            (''host1'',
             \<lparr>nid = ''host1'', label = ''host1 (10.0.0.1)'', nsize = 10,
                ip = None, ncolor = None, pos = None\<rparr>)],
           b_edges =
             [\<lparr>source = ''client1'', target = ''host1'',
                 timestamp = 1672531200, user = Some ''alice'',
                 ecolor = []\<rparr>],
           edge_groups = [((''client1'', ''host1''), [0])],
           node_edge_count = [(''client1'', 1), (''host1'', 1)]\<rparr>"
  by (simp add: row_defs row1_def lib0_def empty_build_def)

lemma ev_rows: "process_rows lib0 [(''10.0.0.1'', ''client1'')] rows0 empty_build =
    Inr \<lparr>b_nodes =
           [(''client1'',
             \<lparr>nid = ''client1'', label = ''client1 (10.0.0.1)'', nsize = 10,
                ip = Some ''10.0.0.1'', ncolor = None, pos = None\<rparr>),
            (''host1'',
             \<lparr>nid = ''host1'', label = ''host1 (10.0.0.1)'', nsize = 10,
                ip = None, ncolor = None, pos = None\<rparr>)],
           b_edges =
             [\<lparr>source = ''client1'', target = ''host1'',
                 timestamp = 1672531200, user = Some ''alice'', ecolor = []\<rparr>,
              \<lparr>source = ''client1'', target = ''host1'',
                 timestamp = 1672617600, user = Some ''bob'', ecolor = []\<rparr>],
           edge_groups = [((''client1'', ''host1''), [0, 1])],
           node_edge_count = [(''client1'', 2), (''host1'', 2)]\<rparr>"
  by (simp add: rows0_def ev_row1) (simp add: row_defs row2_def lib0_def)

lemma ev_color: "calculate_edge_color lib0 (Suc (Suc 0)) (Suc (Suc 0)) = ''rgb(255, 0, 0)''"
  by (simp add: calculate_edge_color_def lib0_def trunc_def show_int_def)

lemma sqrt_up_2: "sqrt_up 2 2 = 2"
  by (simp add: numeral_2_eq_2)

lemma ev_build: "build_snapshot lib0 rng0 (Csv rows0) ''grid'' = Inr snap0"
  unfolding build_snapshot_def
  by (simp add: ev_resolve ev_rows py_max_default_def style_node_def calculate_node_size_def
      color_edges_def color_group_def ev_color layout_positions_def calculate_grid_layout_def
      grid_size_code sqrt_up_2 grid_cell_def place_def snap0_def Let_def)

lemma build_snapshot_from:
  assumes r: "fold resolve_row rows [] = m" and p: "process_rows L m rows empty_build = Inr b"
  shows "build_snapshot L rng (Csv rows) layout =
     (case style_nodes m (node_edge_count b) (py_max_default (map snd (node_edge_count b)) 1)
             (b_nodes b) of
        Inl err \<Rightarrow> Inl err
      | Inr styled \<Rightarrow>
          (case color_edges L (edge_groups b) (b_edges b) of
             Inl err \<Rightarrow> Inl err
           | Inr es \<Rightarrow>
               (case layout_positions L rng layout (map snd styled) es of
                  Inl err \<Rightarrow> Inl err
                | Inr ps \<Rightarrow> Inr \<lparr>nodes = map (place ps) styled, edges = es\<rparr>)))"
  unfolding build_snapshot_def
  by (simp add: r p Let_def del: One_nat_def split: sum.splits)

lemma ev_color_one: "calculate_edge_color lib0 (Suc 0) (Suc 0) = ''rgb(0, 0, 255)''"
  by (simp add: calculate_edge_color_def lib0_def trunc_def show_int_def)

lemma ev_build3: "build_snapshot lib0 rng0 (Csv rows3) ''grid'' = Inr snap3"
proof -
  have r: "fold resolve_row rows3 [] = [(''10.0.0.1'', ''client1'')]"
    by (simp add: rows3_def resolve_row_def row1_def row3_def row_get_def truthy_def strip_domain_def)
  have p: "process_rows lib0 [(''10.0.0.1'', ''client1'')] rows3 empty_build =
    Inr \<lparr>b_nodes =
           [(''client1'', \<lparr>nid = ''client1'', label = ''client1 (10.0.0.1)'', nsize = 10,
                ip = Some ''10.0.0.1'', ncolor = None, pos = None\<rparr>),
            (''host1'', \<lparr>nid = ''host1'', label = ''host1 (10.0.0.1)'', nsize = 10,
                ip = None, ncolor = None, pos = None\<rparr>),
            (''host2'', \<lparr>nid = ''host2'', label = ''host2 (10.0.0.1)'', nsize = 10,
                ip = None, ncolor = None, pos = None\<rparr>)],
           b_edges = [\<lparr>source = ''client1'', target = ''host1'',
                 timestamp = 1672531200, user = Some ''alice'', ecolor = []\<rparr>,
               \<lparr>source = ''client1'', target = ''host2'',
                 timestamp = 1672617600, user = Some ''bob'', ecolor = []\<rparr>],
           edge_groups = [((''client1'', ''host1''), [0]), ((''client1'', ''host2''), [1])],
           node_edge_count = [(''client1'', 2), (''host1'', 1), (''host2'', 1)]\<rparr>"
    by (simp add: rows3_def ev_row1) (simp add: row_defs row3_def lib0_def)
  show ?thesis
    unfolding build_snapshot_from[OF r p]
    by (simp add: py_max_default_def style_node_def calculate_node_size_def
      color_edges_def color_group_def ev_color_one layout_positions_def calculate_grid_layout_def
      grid_size_code sqrt_up_3 grid_cell_def place_def snap3_def Let_def)
qed

lemma ev_process_csv3: "process_csv lib0 rng0 (Csv rows3) ''grid'' None = (Inr snap3, Some snap3)"
  by (simp add: process_csv_def ev_build3)

lemma ev_build_dot: "build_snapshot lib0 rng0 (Csv rows_dot) ''grid'' = Inr snap_dot"
proof -
  have r: "fold resolve_row rows_dot [] = [(''10.0.0.1'', ''client1'')]"
    by (simp add: rows_dot_def resolve_row_def row1_def row_dot_def row_get_def truthy_def strip_domain_def)
  have s: "process_row lib0 m row_dot b = Inr b" for m b
    by (simp add: process_row_def row_dot_def row_get_def truthy_def strip_domain_def)
  have p: "process_rows lib0 [(''10.0.0.1'', ''client1'')] rows_dot empty_build =
    Inr \<lparr>b_nodes =
           [(''client1'', \<lparr>nid = ''client1'', label = ''client1 (10.0.0.1)'', nsize = 10,
                ip = Some ''10.0.0.1'', ncolor = None, pos = None\<rparr>),
            (''host1'', \<lparr>nid = ''host1'', label = ''host1 (10.0.0.1)'', nsize = 10,
                ip = None, ncolor = None, pos = None\<rparr>)],
           b_edges = [\<lparr>source = ''client1'', target = ''host1'',
                 timestamp = 1672531200, user = Some ''alice'', ecolor = []\<rparr>],
           edge_groups = [((''client1'', ''host1''), [0])],
           node_edge_count = [(''client1'', 1), (''host1'', 1)]\<rparr>"
    by (simp add: rows_dot_def ev_row1 s)
  show ?thesis
    unfolding build_snapshot_from[OF r p]
    by (simp add: py_max_default_def style_node_def calculate_node_size_def
      color_edges_def color_group_def ev_color_one layout_positions_def calculate_grid_layout_def
      grid_size_code sqrt_up_2 grid_cell_def place_def snap_dot_def Let_def)
qed

subsection \<open>Referential integrity\<close>

lemma snapshot_inv_integrity: "snapshot_inv L s \<Longrightarrow> referential_integrity s"
  by (auto simp: snapshot_inv_def referential_integrity_def endpoints_def)

lemma process_csv_Inr:
  "process_csv L rng f layout cur = (Inr s, cur') \<longleftrightarrow>
     build_snapshot L rng f layout = Inr s \<and> cur' = Some s"
  by (auto simp: process_csv_def split: sum.splits)

lemma apply_positions_integrity:
  assumes "referential_integrity s"
  shows "referential_integrity (s\<lparr>nodes := apply_positions ps (nodes s)\<rparr>)"
proof -
  have "nid ` set (apply_positions ps (nodes s)) = nid ` set (nodes s)"
    using apply_positions_fields(1)[of ps "nodes s"] by (metis set_map)
  with assms show ?thesis
    by (simp add: referential_integrity_def)
qed

text \<open>
  C1. The snapshot that a successful process\_csv returns and stores has referential
  integrity: the source and the target of every edge are ids of nodes of the snapshot. And
  update\_layout keeps it: whatever the stored snapshot with referential integrity, the
  layout and the random draws, the snapshot stored after the request has it too.
\<close>

theorem referential_integrity_kept:
  "(process_csv L rng f layout cur = (Inr s, cur') \<longrightarrow> cur' = Some s \<and> referential_integrity s) \<and>
   (referential_integrity s0 \<and> update_layout L rng' layout' (Some s0) = (resp, cur1) \<longrightarrow>
      (\<exists>s1. cur1 = Some s1 \<and> referential_integrity s1 \<and> edges s1 = edges s0 \<and>
            map nid (nodes s1) = map nid (nodes s0)))"
proof -
  have 1: "cur' = Some s \<and> referential_integrity s"
    if "process_csv L rng f layout cur = (Inr s, cur')"
    using that by (auto simp: process_csv_Inr dest: build_snapshot_inv snapshot_inv_integrity)
  have 2: "\<exists>s1. cur1 = Some s1 \<and> referential_integrity s1 \<and> edges s1 = edges s0 \<and>
            map nid (nodes s1) = map nid (nodes s0)"
    if "referential_integrity s0" "update_layout L rng' layout' (Some s0) = (resp, cur1)"
    using that update_layout_state[of L rng' layout' "Some s0" resp cur1]
    by (auto simp: apply_positions_integrity apply_positions_fields(1))
  from 1 2 show ?thesis by blast
qed

lemma ev_process_csv: "process_csv lib0 rng0 (Csv rows0) ''grid'' None = (Inr snap0, Some snap0)"
  by (simp add: process_csv_def ev_build)

lemma ev_upload:
  "upload_file lib0 rng0 (Some (Csv rows0)) None None = ((200, Graph snap0), Some snap0)"
  by (simp add: upload_file_def ev_process_csv) (simp add: snap0_def)

lemma stored_snap0: "stored lib0 (Some snap0)"
  by (rule stored.upload[OF stored.initial ev_upload])

lemma ev_grid_snap0:
  "calculate_grid_layout (nodes snap0) 300 = [(''client1'', (0, 0, 0)), (''host1'', (300, 0, 0))]"
  by (simp add: snap0_def calculate_grid_layout_def grid_size_code sqrt_up_2 grid_cell_def)

lemma ev_relayout: "update_layout lib0 rng0 (Some ''grid'') (Some snap0) = ((200, Graph snap0), Some snap0)"
  unfolding update_layout_def
  by (simp add: layout_positions_def ev_grid_snap0 Let_def) (simp add: snap0_def apply_positions_def)

theorem referential_integrity_kept_witness:
  "process_csv lib0 rng0 (Csv rows0) ''grid'' None = (Inr snap0, Some snap0)
   \<and> referential_integrity snap0
   \<and> update_layout lib0 rng0 (Some ''grid'') (Some snap0) = ((200, Graph snap0), Some snap0)
   \<and> source (hd (edges snap0)) = ''client1'' \<and> ''client1'' \<in> nid ` set (nodes snap0)"
  using referential_integrity_kept[of lib0 rng0 "Csv rows0" "''grid''" None snap0 "Some snap0"
      snap0 rng0 "Some ''grid''" "(200, Graph snap0)" "Some snap0"]
    ev_process_csv ev_relayout
  by (simp add: snap0_def)

subsection \<open>Node sizes and edge colors\<close>

lemma max_degree_nodes:
  assumes "nid ` set ns = endpoints es"
  shows "max_degree es = Max ((\<lambda>m. degree es (nid m)) ` set ns)"
proof -
  have "(\<lambda>m. degree es (nid m)) ` set ns = degree es ` endpoints es"
    using assms by (metis image_image)
  then show ?thesis by (simp add: max_degree_def)
qed

lemma degree_le_max:
  assumes "v \<in> endpoints es"
  shows "degree es v \<le> max_degree es"
proof -
  have "finite (endpoints es)" by (simp add: endpoints_def)
  then show ?thesis
    unfolding max_degree_def using assms by (intro Max_ge) auto
qed

text \<open>
  C4. In the snapshot of a successful import the size of every node is
  \<open>10 + 20 * (degree / max_degree)\<close>, where the degree of a node is the number of edge ends
  at its id and \<open>max_degree\<close> the largest degree of a node of the snapshot. No node has
  degree 0, so every size is above 10; a node of the largest degree has size 30; and a node
  of smaller or equal degree has a smaller or equal size.
\<close>

theorem node_size_by_degree:
  assumes "process_csv L rng f layout cur = (Inr s, cur')" and "n \<in> set (nodes s)"
  shows "nsize n = 10 + 20 * (real (degree (edges s) (nid n))
                               / real (Max ((\<lambda>m. degree (edges s) (nid m)) ` set (nodes s))))
       \<and> 0 < degree (edges s) (nid n)
       \<and> 10 < nsize n
       \<and> (degree (edges s) (nid n) = Max ((\<lambda>m. degree (edges s) (nid m)) ` set (nodes s))
            \<longrightarrow> nsize n = 30)
       \<and> (\<forall>m \<in> set (nodes s). degree (edges s) (nid n) \<le> degree (edges s) (nid m)
            \<longrightarrow> nsize n \<le> nsize m)"
proof -
  from assms(1) have inv: "snapshot_inv L s"
    by (auto simp: process_csv_Inr dest: build_snapshot_inv)
  let ?es = "edges s"
  let ?M = "Max ((\<lambda>m. degree ?es (nid m)) ` set (nodes s))"
  from inv have ks: "nid ` set (nodes s) = endpoints ?es"
    and sz: "\<And>m. m \<in> set (nodes s) \<Longrightarrow>
          nsize m = 10 + (real (degree ?es (nid m)) / real (max_degree ?es)) * 20"
    by (auto simp: snapshot_inv_def)
  have M: "max_degree ?es = ?M" by (rule max_degree_nodes[OF ks])
  have ep: "nid m \<in> endpoints ?es" if "m \<in> set (nodes s)" for m
    using that ks by auto
  have pos: "0 < degree ?es (nid m)" if "m \<in> set (nodes s)" for m
    using ep[OF that] by (simp add: degree_pos_iff)
  have le: "degree ?es (nid m) \<le> ?M" if "m \<in> set (nodes s)" for m
    using degree_le_max[OF ep[OF that]] M by simp
  have Mpos: "0 < ?M" using pos[OF assms(2)] le[OF assms(2)] by linarith
  have 1: "nsize n = 10 + 20 * (real (degree ?es (nid n)) / real ?M)"
    using sz[OF assms(2)] M by simp
  have 2: "10 < nsize n"
    unfolding 1 using pos[OF assms(2)] Mpos by simp
  have 3: "nsize n = 30" if "degree ?es (nid n) = ?M"
    unfolding 1 using that Mpos by simp
  have 4: "nsize n \<le> nsize m"
    if "m \<in> set (nodes s)" "degree ?es (nid n) \<le> degree ?es (nid m)" for m
  proof -
    have "real (degree ?es (nid n)) / real ?M \<le> real (degree ?es (nid m)) / real ?M"
      using that(2) Mpos by (simp add: divide_right_mono)
    then have "real (degree ?es (nid n)) / real ?M * 20 \<le> real (degree ?es (nid m)) / real ?M * 20"
      by (rule mult_right_mono) simp
    then show ?thesis
      unfolding sz[OF assms(2)] sz[OF that(1)] M by linarith
  qed
  from 1 pos[OF assms(2)] 2 3 4 show ?thesis by blast
qed

lemma snap3_degrees:
  "degree (edges snap3) ''client1'' = 2" "degree (edges snap3) ''host1'' = 1"
  "Max ((\<lambda>m. degree (edges snap3) (nid m)) ` set (nodes snap3)) = 2"
  by (simp_all add: snap3_def degree_def)

theorem node_size_by_degree_witness:
  "process_csv lib0 rng0 (Csv rows3) ''grid'' None = (Inr snap3, Some snap3)
   \<and> nodes snap3 ! 1 \<in> set (nodes snap3) \<and> nodes snap3 ! 0 \<in> set (nodes snap3)
   \<and> nid (nodes snap3 ! 1) = ''host1'' \<and> nid (nodes snap3 ! 0) = ''client1''
   \<and> degree (edges snap3) ''host1'' = 1 \<and> degree (edges snap3) ''client1'' = 2
   \<and> Max ((\<lambda>m. degree (edges snap3) (nid m)) ` set (nodes snap3)) = 2
   \<and> nsize (nodes snap3 ! 1) = 10 + 20 * (1 / 2)
   \<and> nsize (nodes snap3 ! 1) = 20
   \<and> nsize (nodes snap3 ! 0) = 30
   \<and> 10 < nsize (nodes snap3 ! 1)
   \<and> nsize (nodes snap3 ! 1) \<le> nsize (nodes snap3 ! 0)"
proof -
  have n1: "nodes snap3 ! 1 \<in> set (nodes snap3)" and n0: "nodes snap3 ! 0 \<in> set (nodes snap3)"
    and i1: "nid (nodes snap3 ! 1) = ''host1''" and i0: "nid (nodes snap3 ! 0) = ''client1''"
    by (simp_all add: snap3_def)
  note f = node_size_by_degree[OF ev_process_csv3 n1, unfolded i1 snap3_degrees]
  from f have a: "nsize (nodes snap3 ! 1) = 10 + 20 * (1 / 2)" by simp
  from f have b: "10 < nsize (nodes snap3 ! 1)" by blast
  from f have m: "\<forall>m \<in> set (nodes snap3). 1 \<le> degree (edges snap3) (nid m)
            \<longrightarrow> nsize (nodes snap3 ! 1) \<le> nsize m" by blast
  from m n0 have c: "nsize (nodes snap3 ! 1) \<le> nsize (nodes snap3 ! 0)"
    by (simp add: i0 snap3_degrees)
  from node_size_by_degree[OF ev_process_csv3 n0]
  have d: "nsize (nodes snap3 ! 0) = 30"
    unfolding i0 snap3_degrees by simp
  from a have e: "nsize (nodes snap3 ! 1) = 20" by simp
  from ev_process_csv3 n1 n0 i1 i0 snap3_degrees a e d b c show ?thesis by simp
qed

lemma same_pair_group_size:
  assumes "{source e, target e} = {source f, target f}"
  shows "group_size es f = group_size es e"
proof -
  have "same_pair f = same_pair e"
    using assms by (simp add: same_pair_def fun_eq_iff)
  then show ?thesis by (simp add: group_size_def)
qed

text \<open>
  C7. In the snapshot of a successful import the color of every edge is
  calculate\_edge\_color of two numbers: the number of edges of the snapshot with the same
  unordered pair of ends, and the largest such number over the edges of the snapshot. So
  two edges with the same unordered pair of ends have the same color.
\<close>

theorem edge_color_by_group:
  assumes "process_csv L rng f layout cur = (Inr s, cur')" and "e \<in> set (edges s)"
  shows "ecolor e = calculate_edge_color L (group_size (edges s) e)
                      (Max (group_size (edges s) ` set (edges s)))
       \<and> (\<forall>e' \<in> set (edges s). {source e, target e} = {source e', target e'}
            \<longrightarrow> ecolor e' = ecolor e)"
proof -
  from assms(1) have inv: "snapshot_inv L s"
    by (auto simp: process_csv_Inr dest: build_snapshot_inv)
  then have col: "\<And>x. x \<in> set (edges s) \<Longrightarrow>
      ecolor x = calculate_edge_color L (group_size (edges s) x) (max_group_size (edges s))"
    by (auto simp: snapshot_inv_def)
  have "ecolor e' = ecolor e"
    if "e' \<in> set (edges s)" "{source e, target e} = {source e', target e'}" for e'
    using col[OF that(1)] col[OF assms(2)] same_pair_group_size[OF that(2), of "edges s"] by simp
  with col[OF assms(2)] show ?thesis
    by (simp add: max_group_size_def)
qed

theorem edge_color_by_group_witness:
  "process_csv lib0 rng0 (Csv rows0) ''grid'' None = (Inr snap0, Some snap0)
   \<and> edges snap0 ! 0 \<in> set (edges snap0) \<and> edges snap0 ! 1 \<in> set (edges snap0)
   \<and> {source (edges snap0 ! 0), target (edges snap0 ! 0)}
       = {source (edges snap0 ! 1), target (edges snap0 ! 1)}
   \<and> ecolor (edges snap0 ! 1) = ecolor (edges snap0 ! 0)
   \<and> ecolor (edges snap0 ! 0) = ''rgb(255, 0, 0)''"
proof -
  have a: "edges snap0 ! 0 \<in> set (edges snap0)" and b: "edges snap0 ! 1 \<in> set (edges snap0)"
    and c: "{source (edges snap0 ! 0), target (edges snap0 ! 0)}
       = {source (edges snap0 ! 1), target (edges snap0 ! 1)}"
    by (simp_all add: snap0_def)
  from edge_color_by_group[OF ev_process_csv a] b c
  have "ecolor (edges snap0 ! 1) = ecolor (edges snap0 ! 0)" by blast
  then show ?thesis
    using ev_process_csv a b c by (simp add: snap0_def)
qed

subsection \<open>Rows: a malformed event time, the label of a new target\<close>

lemma process_row_malformed:
  assumes "processed r" and "isoparse L (the (row_get r ''EventTime'')) = None"
  shows "process_row L m r b = Inl ParseError"
  using assms
  by (auto simp: processed_def process_row_def Let_def split: option.splits)

lemma process_rows_Inl:
  assumes "r \<in> set rs" and "\<And>b. \<exists>err. process_row L m r b = Inl err"
  shows "\<exists>err. process_rows L m rs b = Inl err"
  using assms(1)
proof (induction rs arbitrary: b)
  case Nil
  then show ?case by simp
next
  case (Cons x xs)
  show ?case
  proof (cases "process_row L m x b")
    case (Inl e)
    then show ?thesis by simp
  next
    case (Inr b1)
    with Cons.prems assms(2)[of b] have "r \<in> set xs" by auto
    from Cons.IH[OF this, of b1] Inr show ?thesis by simp
  qed
qed

text \<open>
  C2, as amended. A processed row is one with a non-empty event time, a computer name that
  is non-empty once its domain is stripped (the part before the first dot), and a non-empty
  source ip: the test of line 144 is made on the stripped name. When a processed row of the
  file has an event time that isoparse rejects, process\_csv returns an error and leaves
  \<open>current_data\<close> as it was, and upload\_file answers with status 500 and that error as its
  body, whatever the other rows, the layout and the snapshot stored before.
\<close>

theorem malformed_row_aborts:
  assumes "r \<in> set rows" and "processed r"
    and "isoparse L (the (row_get r ''EventTime'')) = None"
  shows "\<exists>err. process_csv L rng (Csv rows) layout cur = (Inl err, cur)
             \<and> upload_file L rng (Some (Csv rows)) (Some layout) cur = ((500, Failure err), cur)"
proof -
  from process_rows_Inl[OF assms(1), of L "fold resolve_row rows []" empty_build]
    process_row_malformed[OF assms(2,3)]
  obtain err where "process_rows L (fold resolve_row rows []) rows empty_build = Inl err"
    by blast
  then have "build_snapshot L rng (Csv rows) layout = Inl err"
    by (simp add: build_snapshot_def)
  then show ?thesis
    by (simp add: process_csv_def upload_file_def)
qed

lemma row_bad_processed: "processed row_bad"
  by (simp add: processed_def row_bad_def row_get_def truthy_def strip_domain_def)

lemma row_bad_malformed: "isoparse lib0 (the (row_get row_bad ''EventTime'')) = None"
  by (simp add: row_bad_def row_get_def lib0_def utc_stamp_def)

theorem malformed_row_aborts_witness:
  "row_bad \<in> set [row1, row_bad] \<and> processed row_bad
   \<and> isoparse lib0 (the (row_get row_bad ''EventTime'')) = None
   \<and> (\<exists>err. process_csv lib0 rng0 (Csv [row1, row_bad]) ''grid'' (Some snap0) = (Inl err, Some snap0)
        \<and> upload_file lib0 rng0 (Some (Csv [row1, row_bad])) (Some ''grid'') (Some snap0)
             = ((500, Failure err), Some snap0))"
proof -
  have m: "row_bad \<in> set [row1, row_bad]" by simp
  from malformed_row_aborts[OF m row_bad_processed row_bad_malformed, of rng0 "''grid''" "Some snap0"]
    m row_bad_processed row_bad_malformed
  show ?thesis by blast
qed

text \<open>
  With the three cells non-empty but a computer name that starts with a dot, the row with
  the malformed event time is skipped: the import succeeds and replaces the stored snapshot.
\<close>

theorem malformed_row_skipped_counterexample:
  "row_dot \<in> set rows_dot
   \<and> row_get row_dot ''EventTime'' = Some ''yesterday''
   \<and> row_get row_dot ''Computer'' = Some ''.local''
   \<and> row_get row_dot ''EventData.IpAddress'' = Some ''10.0.0.2''
   \<and> isoparse lib0 ''yesterday'' = None
   \<and> stored lib0 (Some snap0)
   \<and> process_csv lib0 rng0 (Csv rows_dot) ''grid'' (Some snap0) = (Inr snap_dot, Some snap_dot)
   \<and> upload_file lib0 rng0 (Some (Csv rows_dot)) (Some ''grid'') (Some snap0)
        = ((200, Graph snap_dot), Some snap_dot)
   \<and> snap_dot \<noteq> snap0"
proof -
  have "row_dot \<in> set rows_dot" by (simp add: rows_dot_def)
  moreover have "row_get row_dot ''EventTime'' = Some ''yesterday''"
    "row_get row_dot ''Computer'' = Some ''.local''"
    "row_get row_dot ''EventData.IpAddress'' = Some ''10.0.0.2''"
    by (simp_all add: row_dot_def row_get_def)
  moreover have "isoparse lib0 ''yesterday'' = None"
    by (simp add: lib0_def utc_stamp_def)
  moreover have p: "process_csv lib0 rng0 (Csv rows_dot) ''grid'' (Some snap0) = (Inr snap_dot, Some snap_dot)"
    by (simp add: process_csv_def ev_build_dot)
  moreover have "upload_file lib0 rng0 (Some (Csv rows_dot)) (Some ''grid'') (Some snap0)
        = ((200, Graph snap_dot), Some snap_dot)"
    by (simp add: upload_file_def p) (simp add: snap_dot_def)
  moreover have "snap_dot \<noteq> snap0" by (simp add: snap_dot_def snap0_def)
  ultimately show ?thesis using stored_snap0 by blast
qed




subsection \<open>highlight\_data\<close>

lemma ev_build_anon: "build_snapshot lib0 rng0 (Csv [row_anon]) ''grid'' = Inr snap_anon"
proof -
  have r: "fold resolve_row [row_anon] [] = [(''10.0.0.1'', '''')]"
    by (simp add: resolve_row_def row_anon_def row_get_def truthy_def strip_domain_def)
  have p: "process_rows lib0 [(''10.0.0.1'', '''')] [row_anon] empty_build =
    Inr \<lparr>b_nodes =
           [('''', \<lparr>nid = '''', label = '' (10.0.0.1)'', nsize = 10,
                ip = Some ''10.0.0.1'', ncolor = None, pos = None\<rparr>),
            (''host1'', \<lparr>nid = ''host1'', label = ''host1 (10.0.0.1)'', nsize = 10,
                ip = None, ncolor = None, pos = None\<rparr>)],
           b_edges = [\<lparr>source = '''', target = ''host1'',
                 timestamp = 1672531200, user = Some ''alice'', ecolor = []\<rparr>],
           edge_groups = [(('''', ''host1''), [0])],
           node_edge_count = [('''', 1), (''host1'', 1)]\<rparr>"
    by (simp add: row_defs row_anon_def lib0_def empty_build_def)
  have c: "calculate_edge_color lib0 (Suc 0) (Suc 0) = ''rgb(0, 0, 255)''"
    by (simp add: calculate_edge_color_def lib0_def trunc_def show_int_def)
  show ?thesis
    unfolding build_snapshot_from[OF r p]
    by (simp add: py_max_default_def style_node_def calculate_node_size_def
      color_edges_def color_group_def c layout_positions_def calculate_grid_layout_def
      grid_size_code sqrt_up_2 grid_cell_def place_def snap_anon_def Let_def)
qed

lemma stored_snap_anon: "stored lib0 (Some snap_anon)"
proof -
  have "upload_file lib0 rng0 (Some (Csv [row_anon])) None None
          = ((200, Graph snap_anon), Some snap_anon)"
    by (simp add: upload_file_def process_csv_def ev_build_anon) (simp add: snap_anon_def)
  from stored.upload[OF stored.initial this] show ?thesis .
qed

lemma fold_insert_ends:
  "fold (\<lambda>e ids. insert (target e) (insert (source e) ids)) es A = A \<union> endpoints es"
  by (induction es arbitrary: A) (auto simp: endpoints_def)

lemma highlight_data_graph:
  assumes "x \<noteq> []"
  shows "highlight_data (Some x) (Some s) =
     (200, Graph \<lparr>nodes = filter (\<lambda>n. nid n \<in> insert x
                              (endpoints (filter (\<lambda>e. source e = x \<or> target e = x) (edges s))))
                            (nodes s),
                  edges = filter (\<lambda>e. source e = x \<or> target e = x) (edges s)\<rparr>)"
  using assms by (simp add: highlight_data_def truthy_def Let_def fold_insert_ends)

lemma touching_ends:
  assumes "x \<in> endpoints es"
  shows "x \<in> endpoints (filter (\<lambda>e. source e = x \<or> target e = x) es)"
  using assms by (auto simp: endpoints_def)

text \<open>
  C6, as amended. For every stored snapshot and every non-empty node id \<open>x\<close>, highlight\_data
  answers 200 with exactly the edges whose source or target is \<open>x\<close>, in their order, and
  with exactly the nodes whose id is an end of one of these edges: the ids of the returned
  nodes are the ends of the returned edges.
\<close>

theorem highlight_neighbourhood:
  assumes "stored L (Some s)" and "x \<noteq> []"
  shows "highlight_data (Some x) (Some s) =
     (200, Graph \<lparr>nodes = filter (\<lambda>n. nid n \<in>
                              endpoints (filter (\<lambda>e. source e = x \<or> target e = x) (edges s)))
                            (nodes s),
                  edges = filter (\<lambda>e. source e = x \<or> target e = x) (edges s)\<rparr>)
     \<and> nid ` set (filter (\<lambda>n. nid n \<in>
                              endpoints (filter (\<lambda>e. source e = x \<or> target e = x) (edges s)))
                            (nodes s))
         = endpoints (filter (\<lambda>e. source e = x \<or> target e = x) (edges s))"
proof -
  let ?t = "filter (\<lambda>e. source e = x \<or> target e = x) (edges s)"
  from stored_inv[OF assms(1) refl] have ks: "nid ` set (nodes s) = endpoints (edges s)"
    by (simp add: snapshot_inv_def)
  have "filter (\<lambda>n. nid n \<in> insert x (endpoints ?t)) (nodes s)
        = filter (\<lambda>n. nid n \<in> endpoints ?t) (nodes s)"
  proof (rule filter_cong[OF refl])
    fix n assume "n \<in> set (nodes s)"
    then have "nid n \<in> endpoints (edges s)" using ks by auto
    then show "(nid n \<in> insert x (endpoints ?t)) = (nid n \<in> endpoints ?t)"
      using touching_ends[of x "edges s"] by auto
  qed
  moreover have "endpoints ?t \<subseteq> nid ` set (nodes s)"
    unfolding ks by (auto simp: endpoints_def)
  then have "nid ` set (filter (\<lambda>n. nid n \<in> endpoints ?t) (nodes s)) = endpoints ?t"
    by auto
  ultimately show ?thesis
    using highlight_data_graph[OF assms(2), of s] by simp
qed

theorem highlight_neighbourhood_witness:
  "stored lib0 (Some snap0) \<and> ''host1'' \<noteq> []
   \<and> highlight_data (Some ''host1'') (Some snap0) = (200, Graph snap0)"
proof -
  have x: "''host1'' \<noteq> []" by simp
  have e: "filter (\<lambda>e. source e = ''host1'' \<or> target e = ''host1'') (edges snap0) = edges snap0"
    by (simp add: snap0_def)
  have n: "filter (\<lambda>n. nid n \<in> endpoints (edges snap0)) (nodes snap0) = nodes snap0"
    by (simp add: snap0_def endpoints_def)
  from highlight_neighbourhood[OF stored_snap0 x]
  have "highlight_data (Some ''host1'') (Some snap0) = (200, Graph snap0)"
    unfolding e n by simp
  with stored_snap0 show ?thesis by simp
qed

theorem highlight_empty_id_counterexample:
  "stored lib0 (Some snap_anon) \<and> [] \<in> nid ` set (nodes snap_anon)
   \<and> filter (\<lambda>e. source e = [] \<or> target e = []) (edges snap_anon) \<noteq> []
   \<and> highlight_data (Some []) (Some snap_anon) = (400, Failure NodeIdRequired)"
  using stored_snap_anon
  by (simp add: highlight_data_def truthy_def) (simp add: snap_anon_def)

text \<open>
  C9, as amended. For every stored snapshot, highlight\_data answers 200 with empty lists of
  nodes and edges for every non-empty node id that is the id of none of its nodes, and 400
  with \<open>NodeIdRequired\<close> for the empty node id and for a request without node id.
\<close>

theorem highlight_unknown_node:
  assumes "stored L (Some s)"
  shows "(x \<noteq> [] \<and> x \<notin> nid ` set (nodes s) \<longrightarrow>
            highlight_data (Some x) (Some s) = (200, Graph \<lparr>nodes = [], edges = []\<rparr>))
       \<and> highlight_data (Some []) (Some s) = (400, Failure NodeIdRequired)
       \<and> highlight_data None (Some s) = (400, Failure NodeIdRequired)"
proof -
  from stored_inv[OF assms(1) refl] have ks: "nid ` set (nodes s) = endpoints (edges s)"
    by (simp add: snapshot_inv_def)
  have 1: "highlight_data (Some x) (Some s) = (200, Graph \<lparr>nodes = [], edges = []\<rparr>)"
    if x: "x \<noteq> []" and n: "x \<notin> nid ` set (nodes s)"
  proof -
    from n ks have "x \<notin> endpoints (edges s)" by simp
    then have t: "filter (\<lambda>e. source e = x \<or> target e = x) (edges s) = []"
      by (auto simp: endpoints_def filter_empty_conv)
    have "filter (\<lambda>n. nid n \<in> insert x (endpoints [])) (nodes s) = []"
      using n by (auto simp: endpoints_def filter_empty_conv)
    with highlight_data_graph[OF x, of s] t show ?thesis by simp
  qed
  have 2: "highlight_data (Some []) (Some s) = (400, Failure NodeIdRequired)"
    and 3: "highlight_data None (Some s) = (400, Failure NodeIdRequired)"
    by (simp_all add: highlight_data_def truthy_def)
  from 1 2 3 show ?thesis by blast
qed

theorem highlight_unknown_node_witness:
  "stored lib0 (Some snap0) \<and> ''nobody'' \<noteq> [] \<and> ''nobody'' \<notin> nid ` set (nodes snap0)
   \<and> highlight_data (Some ''nobody'') (Some snap0) = (200, Graph \<lparr>nodes = [], edges = []\<rparr>)
   \<and> highlight_data (Some []) (Some snap0) = (400, Failure NodeIdRequired)
   \<and> highlight_data None (Some snap0) = (400, Failure NodeIdRequired)"
proof -
  have x: "''nobody'' \<noteq> []" by simp
  have n: "''nobody'' \<notin> nid ` set (nodes snap0)" by (simp add: snap0_def)
  from highlight_unknown_node[OF stored_snap0, of "''nobody''"] stored_snap0 x n
  show ?thesis by simp
qed

theorem highlight_unknown_empty_id_counterexample:
  "stored lib0 (Some snap0) \<and> [] \<notin> nid ` set (nodes snap0)
   \<and> highlight_data (Some []) (Some snap0) = (400, Failure NodeIdRequired)"
  using stored_snap0
  by (simp add: highlight_data_def truthy_def) (simp add: snap0_def)

subsection \<open>filter\_data\<close>

lemma filter_bounds_Inr:
  assumes "strptime L sd = Some d0" and "mktime L d0 = Some lo"
    and "strptime L ed = Some d1" and "dt_min \<le> d1" and "d1 + 86400 \<le> dt_max"
    and "mktime L (d1 + 86399) = Some hi"
  shows "filter_bounds L (Some sd) (Some ed) = Inr (lo, hi)"
proof -
  have "timedelta_add d1 86400 = Inr (d1 + 86400)"
    using assms(4,5) by (simp add: timedelta_add_def dt_min_def dt_max_def)
  moreover have "timedelta_add (d1 + 86400) (- 1) = Inr (d1 + 86399)"
    using assms(4,5) by (simp add: timedelta_add_def dt_min_def dt_max_def)
  ultimately show ?thesis
    using assms(1,2,3,6) by (simp add: filter_bounds_def)
qed

lemma filter_data_bounds:
  assumes "filter_bounds L sd ed = Inr (lo, hi)"
  shows "filter_data L sd ed (Some s) =
     (200, Graph \<lparr>nodes = filter (\<lambda>n. nid n \<in> endpoints
                               (filter (\<lambda>e. lo \<le> timestamp e \<and> timestamp e \<le> hi) (edges s)))
                            (nodes s),
                  edges = filter (\<lambda>e. lo \<le> timestamp e \<and> timestamp e \<le> hi) (edges s)\<rparr>)"
  using assms by (simp add: filter_data_def Let_def endpoints_def)

text \<open>
  What filter\_data computes. For a stored snapshot and two dates that strptime accepts,
  when end\_date plus one day is still a datetime and the server's clock gives a timestamp
  for start\_date and for end\_date plus one day minus one second, the answer is 200 with
  exactly the edges whose timestamp lies between these two timestamps, both included, in
  their order, and with exactly the nodes whose id is an end of one of these edges. The
  upper bound is the last second of end\_date's calendar day if and only if the time of
  end\_date is 00:00.
\<close>

lemma filter_data_range:
  assumes "stored L (Some s)"
    and "strptime L sd = Some d0" and "mktime L d0 = Some lo"
    and "strptime L ed = Some d1" and "dt_min \<le> d1" and "d1 + 86400 \<le> dt_max"
    and "mktime L (d1 + 86399) = Some hi"
  shows "filter_data L (Some sd) (Some ed) (Some s) =
     (200, Graph \<lparr>nodes = filter (\<lambda>n. nid n \<in> endpoints
                               (filter (\<lambda>e. lo \<le> timestamp e \<and> timestamp e \<le> hi) (edges s)))
                            (nodes s),
                  edges = filter (\<lambda>e. lo \<le> timestamp e \<and> timestamp e \<le> hi) (edges s)\<rparr>)
     \<and> nid ` set (filter (\<lambda>n. nid n \<in> endpoints
                               (filter (\<lambda>e. lo \<le> timestamp e \<and> timestamp e \<le> hi) (edges s)))
                            (nodes s))
         = endpoints (filter (\<lambda>e. lo \<le> timestamp e \<and> timestamp e \<le> hi) (edges s))
     \<and> (d1 + 86399 = end_of_day d1 \<longleftrightarrow> d1 mod 86400 = 0)
     \<and> ((\<forall>e \<in> set (edges s). timestamp e < lo \<or> hi < timestamp e) \<longrightarrow>
          filter_data L (Some sd) (Some ed) (Some s) = (200, Graph \<lparr>nodes = [], edges = []\<rparr>))
     \<and> ((\<forall>e \<in> set (edges s). lo \<le> timestamp e \<and> timestamp e \<le> hi) \<longrightarrow>
          filter (\<lambda>e. lo \<le> timestamp e \<and> timestamp e \<le> hi) (edges s) = edges s)"
proof -
  let ?es = "filter (\<lambda>e. lo \<le> timestamp e \<and> timestamp e \<le> hi) (edges s)"
  let ?ns = "filter (\<lambda>n. nid n \<in> endpoints ?es) (nodes s)"
  from stored_inv[OF assms(1) refl] have ks: "nid ` set (nodes s) = endpoints (edges s)"
    by (simp add: snapshot_inv_def)
  have 1: "filter_data L (Some sd) (Some ed) (Some s) = (200, Graph \<lparr>nodes = ?ns, edges = ?es\<rparr>)"
    using filter_data_bounds[OF filter_bounds_Inr[OF assms(2-7)]] .
  have "endpoints ?es \<subseteq> nid ` set (nodes s)"
    unfolding ks by (auto simp: endpoints_def)
  then have 2: "nid ` set ?ns = endpoints ?es" by auto
  have "d1 div 86400 * 86400 = d1 - d1 mod 86400"
    by (simp add: minus_mod_eq_div_mult)
  then have 3: "d1 + 86399 = end_of_day d1 \<longleftrightarrow> d1 mod 86400 = 0"
    by (simp add: end_of_day_def)
  have 4: "filter_data L (Some sd) (Some ed) (Some s) = (200, Graph \<lparr>nodes = [], edges = []\<rparr>)"
    if "\<forall>e \<in> set (edges s). timestamp e < lo \<or> hi < timestamp e"
  proof -
    from that have "?es = []" by (auto simp: filter_empty_conv)
    then show ?thesis unfolding 1 by (simp add: endpoints_def)
  qed
  have 5: "?es = edges s" if "\<forall>e \<in> set (edges s). lo \<le> timestamp e \<and> timestamp e \<le> hi"
    using that by (simp add: filter_id_conv)
  from 1 2 3 4 5 show ?thesis by blast
qed

lemma ev_stamps:
  "minute_stamp ''2022-12-31T00:00'' = Some 1672444800"
  "minute_stamp ''2023-01-01T12:00'' = Some 1672574400"
  by (simp_all add: parse_defs)

text \<open>
  C3. The snapshot of the two-row example has an edge at 2023-01-01T00:00:00 and one at
  2023-01-02T00:00:00. A filter request from 2022-12-31T00:00 to 2023-01-01T12:00 answers
  with the whole snapshot, the second edge included, although the calendar day of the end
  date ends at 2023-01-01T23:59:59 and only the first edge lies in the range up to there:
  the upper bound of filter\_data is end\_date plus one day minus one second with the time of
  day kept, here 2023-01-02T11:59:59.
\<close>

theorem filter_end_of_day_divergence:
  "stored lib0 (Some snap0)
   \<and> strptime lib0 ''2022-12-31T00:00'' = Some 1672444800
   \<and> mktime lib0 1672444800 = Some 1672444800
   \<and> strptime lib0 ''2023-01-01T12:00'' = Some 1672574400
   \<and> mktime lib0 (end_of_day 1672574400) = Some 1672617599
   \<and> filter (\<lambda>e. 1672444800 \<le> timestamp e \<and> timestamp e \<le> 1672617599) (edges snap0)
        = [edges snap0 ! 0]
   \<and> filter_data lib0 (Some ''2022-12-31T00:00'') (Some ''2023-01-01T12:00'') (Some snap0)
        = (200, Graph snap0)
   \<and> edges snap0 = [edges snap0 ! 0, edges snap0 ! 1]
   \<and> 1672617599 < timestamp (edges snap0 ! 1)"
proof -
  have b: "filter_bounds lib0 (Some ''2022-12-31T00:00'') (Some ''2023-01-01T12:00'')
           = Inr (1672444800, 1672660799)"
    by (rule filter_bounds_Inr[where ?d0.0 = 1672444800 and ?d1.0 = 1672574400])
       (simp_all add: lib0_def ev_stamps dt_min_def dt_max_def)
  have es: "filter (\<lambda>e. 1672444800 \<le> timestamp e \<and> timestamp e \<le> 1672660799) (edges snap0)
            = edges snap0"
    by (simp add: snap0_def)
  have ns: "filter (\<lambda>n. nid n \<in> endpoints (edges snap0)) (nodes snap0) = nodes snap0"
    by (simp add: snap0_def endpoints_def)
  have "filter_data lib0 (Some ''2022-12-31T00:00'') (Some ''2023-01-01T12:00'') (Some snap0)
        = (200, Graph snap0)"
    unfolding filter_data_bounds[OF b] es ns by simp
  moreover have "mktime lib0 (end_of_day 1672574400) = Some 1672617599"
    "mktime lib0 1672444800 = Some 1672444800"
    by (simp_all add: lib0_def end_of_day_def)
  moreover have "strptime lib0 ''2023-01-01T12:00'' = Some 1672574400"
    "strptime lib0 ''2022-12-31T00:00'' = Some 1672444800"
    by (simp_all add: lib0_def ev_stamps)
  moreover have "filter (\<lambda>e. 1672444800 \<le> timestamp e \<and> timestamp e \<le> 1672617599) (edges snap0)
        = [edges snap0 ! 0]"
    "edges snap0 = [edges snap0 ! 0, edges snap0 ! 1]"
    "1672617599 < timestamp (edges snap0 ! 1)"
    by (simp_all add: snap0_def)
  ultimately show ?thesis
    using stored_snap0 by blast
qed

subsection \<open>calculate\_smart\_layout\<close>



























end
